theory Spec2Isabelle
  imports Main
begin

section \<open>The accessibility widget of mile3pizza\<close>

text \<open>
  A shallow embedding of \<^verbatim>\<open>src/components/Accessibility.tsx\<close>: the settings record and its
  defaults, the three effects of the component (load from \<^verbatim>\<open>localStorage\<close> on mount, save on
  every change, apply to the document), the three state updates (\<^verbatim>\<open>handleSettingChange\<close>,
  \<^verbatim>\<open>togglePageStructure\<close>, \<^verbatim>\<open>resetSettings\<close>) and \<^verbatim>\<open>renderPageStructure\<close>.

  The component runs on a JavaScript platform. What it uses of the platform is modelled
  first: JSON values with \<^verbatim>\<open>JSON.stringify\<close> and \<^verbatim>\<open>JSON.parse\<close>, object spread, truthiness,
  \<^verbatim>\<open>String.prototype.trim\<close>, \<^verbatim>\<open>localStorage\<close>, and the part of the DOM the component reads
  and writes.
\<close>

subsection \<open>JavaScript values that JSON can carry\<close>

text \<open>
  \<^verbatim>\<open>JSON.parse\<close> returns \<^verbatim>\<open>any\<close>: at run time the state \<^verbatim>\<open>settings\<close> holds whatever value the
  stored text denotes, so the state is a JSON value and not the TypeScript interface.
  An object keeps its properties in order (an association list). A string is a list of
  8-bit characters. A number keeps the literal it was read from: \<^verbatim>\<open>JSON.stringify\<close> writes
  a number in its shortest form, and the model writes the literal back (the two agree on
  what \<^verbatim>\<open>JSON.stringify\<close> itself has written). No settings record holds a number.
\<close>

datatype json =
    JNull
  | JBool bool
  | JNum string
  | JStr string
  | JArr "json list"
  | JObj "(string \<times> json) list"

datatype error = SyntaxError | TypeError

definition dquote :: char where
  "dquote = CHR 0x22"

definition backslash :: char where
  "backslash = CHR 0x5C"

definition isDigit :: "char \<Rightarrow> bool" where
  "isDigit c = (c \<in> set ''0123456789'')"

definition digitVal :: "char \<Rightarrow> int" where
  "digitVal c = of_char c - 48"

definition digitChar :: "nat \<Rightarrow> char" where
  "digitChar n = char_of (48 + n)"

text \<open>The decimal numeral of a natural number, as \<^verbatim>\<open>String(n)\<close> writes it.\<close>

function decimal :: "nat \<Rightarrow> string" where
  "decimal n = (if n < 10 then [digitChar n] else decimal (n div 10) @ [digitChar (n mod 10)])"
  by pat_completeness auto
termination
  by (relation "measure id") auto

declare decimal.simps [simp del]

text \<open>
  Property order of an ordinary object: array indices (canonical numerals below
  \<open>2\<^sup>3\<^sup>2 - 1\<close>) come first, in ascending order, then the other keys in the order of their
  creation. Writing an existing property keeps its place.
\<close>

definition indexVal :: "string \<Rightarrow> int" where
  "indexVal k = foldl (\<lambda>n c. 10 * n + digitVal c) 0 k"

definition isIndex :: "string \<Rightarrow> bool" where
  "isIndex k = (k \<noteq> [] \<and> list_all isDigit k \<and> (k = ''0'' \<or> hd k \<noteq> CHR ''0'')
                \<and> indexVal k < 4294967295)"

fun insertIndex :: "string \<Rightarrow> json \<Rightarrow> (string \<times> json) list \<Rightarrow> (string \<times> json) list" where
  "insertIndex k v [] = [(k, v)]"
| "insertIndex k v ((k', v') # kvs) =
     (if isIndex k' \<and> indexVal k' < indexVal k then (k', v') # insertIndex k v kvs
      else (k, v) # (k', v') # kvs)"

fun replaceProp :: "string \<Rightarrow> json \<Rightarrow> (string \<times> json) list \<Rightarrow> (string \<times> json) list" where
  "replaceProp k v [] = []"
| "replaceProp k v ((k', v') # kvs) =
     (if k' = k then (k, v) # kvs else (k', v') # replaceProp k v kvs)"

definition setProp :: "string \<Rightarrow> json \<Rightarrow> (string \<times> json) list \<Rightarrow> (string \<times> json) list" where
  "setProp k v kvs =
     (if map_of kvs k \<noteq> None then replaceProp k v kvs
      else if isIndex k then insertIndex k v kvs
      else kvs @ [(k, v)])"

text \<open>
  \<^verbatim>\<open>{...prev}\<close>: the own enumerable properties of \<^verbatim>\<open>prev\<close>. An object gives its
  properties, an array and a string their elements under their indices, and
  \<^verbatim>\<open>null\<close>, a boolean and a number give nothing.
\<close>

fun spread :: "json \<Rightarrow> (string \<times> json) list" where
  "spread (JObj kvs) = kvs"
| "spread (JArr vs) = zip (map decimal [0..<length vs]) vs"
| "spread (JStr s) = zip (map decimal [0..<length s]) (map (\<lambda>c. JStr [c]) s)"
| "spread _ = []"

text \<open>
  \<^verbatim>\<open>v.k\<close> for a property name \<open>k\<close> that no prototype defines and that is no index (such
  as the names of the twelve fields): a \<^verbatim>\<open>TypeError\<close> on \<^verbatim>\<open>null\<close>, the own property of an
  object, and \<^verbatim>\<open>undefined\<close> (\<open>None\<close>) otherwise.
\<close>

fun getProp :: "json \<Rightarrow> string \<Rightarrow> error + json option" where
  "getProp JNull k = Inl TypeError"
| "getProp (JObj kvs) k = Inr (map_of kvs k)"
| "getProp _ k = Inr None"

text \<open>
  The number a literal denotes is zero when its digits are all \<open>0\<close>, and also when it is so
  small that it rounds to zero: a literal \<open>m \<times> 10\<^sup>e\<close> with \<open>m \<times> 10\<^sup>e \<le> 2\<^sup>-\<^sup>1\<^sup>0\<^sup>7\<^sup>5\<close>, half of
  the least positive double. \<open>m\<close> is read from the digits before the exponent, and \<open>e\<close> is
  the exponent less the number of digits after the point.
\<close>

definition mantissaText :: "string \<Rightarrow> string" where
  "mantissaText n = takeWhile (\<lambda>c. c \<noteq> CHR ''e'' \<and> c \<noteq> CHR ''E'') n"

definition exponentText :: "string \<Rightarrow> string" where
  "exponentText n = drop 1 (dropWhile (\<lambda>c. c \<noteq> CHR ''e'' \<and> c \<noteq> CHR ''E'') n)"

definition digitsVal :: "string \<Rightarrow> int" where
  "digitsVal cs = foldl (\<lambda>n c. 10 * n + digitVal c) 0 (filter isDigit cs)"

definition fractionLength :: "string \<Rightarrow> nat" where
  "fractionLength n =
     length (filter isDigit (drop 1 (dropWhile (\<lambda>c. c \<noteq> CHR ''.'') (mantissaText n))))"

definition exponentVal :: "string \<Rightarrow> int" where
  "exponentVal n =
     (if take 1 (exponentText n) = ''-'' then - digitsVal (exponentText n)
      else digitsVal (exponentText n))"

definition isZeroNumber :: "string \<Rightarrow> bool" where
  "isZeroNumber n =
     (let m = digitsVal (mantissaText n);
          e = exponentVal n - int (fractionLength n)
      in m = 0 \<or> (e < 0 \<and> m * 2 ^ 1075 \<le> 10 ^ nat (- e)))"

text \<open>\<^verbatim>\<open>ToBoolean\<close>; \<open>None\<close> is \<^verbatim>\<open>undefined\<close>.\<close>

fun truthy :: "json option \<Rightarrow> bool" where
  "truthy None = False"
| "truthy (Some JNull) = False"
| "truthy (Some (JBool b)) = b"
| "truthy (Some (JNum n)) = (\<not> isZeroNumber n)"
| "truthy (Some (JStr s)) = (s \<noteq> [])"
| "truthy (Some (JArr vs)) = True"
| "truthy (Some (JObj kvs)) = True"

subsection \<open>\<^verbatim>\<open>JSON.stringify\<close>\<close>

definition hexChar :: "nat \<Rightarrow> char" where
  "hexChar n = ''0123456789abcdef'' ! (n mod 16)"

text \<open>\<^verbatim>\<open>QuoteJSONString\<close>: the escapes of ECMA-262 for the quote, the backslash and controls.\<close>

definition quoteChar :: "char \<Rightarrow> string" where
  "quoteChar c =
     (if c = dquote then [backslash, dquote]
      else if c = backslash then [backslash, backslash]
      else if c = CHR 0x08 then [backslash, CHR ''b'']
      else if c = CHR 0x09 then [backslash, CHR ''t'']
      else if c = CHR 0x0A then [backslash, CHR ''n'']
      else if c = CHR 0x0C then [backslash, CHR ''f'']
      else if c = CHR 0x0D then [backslash, CHR ''r'']
      else if (of_char c :: nat) < 32
        then [backslash, CHR ''u'', CHR ''0'', CHR ''0'',
              hexChar (of_char c div 16), hexChar (of_char c)]
      else [c])"

definition quoteJSONString :: "string \<Rightarrow> string" where
  "quoteJSONString s = dquote # concat (map quoteChar s) @ [dquote]"

fun joinWith :: "string \<Rightarrow> string list \<Rightarrow> string" where
  "joinWith sep [] = []"
| "joinWith sep [x] = x"
| "joinWith sep (x # y # ys) = x @ sep @ joinWith sep (y # ys)"

fun JSON_stringify :: "json \<Rightarrow> string" where
  "JSON_stringify JNull = ''null''"
| "JSON_stringify (JBool b) = (if b then ''true'' else ''false'')"
| "JSON_stringify (JNum n) = n"
| "JSON_stringify (JStr s) = quoteJSONString s"
| "JSON_stringify (JArr vs) = ''['' @ joinWith '','' (map JSON_stringify vs) @ '']''"
| "JSON_stringify (JObj kvs) =
     ''{'' @ joinWith '','' (map (\<lambda>(k, v). quoteJSONString k @ '':'' @ JSON_stringify v) kvs)
       @ ''}''"

subsection \<open>\<^verbatim>\<open>JSON.parse\<close>\<close>

text \<open>
  The grammar of ECMA-404, in two passes: the text becomes tokens, and a stack machine
  reads the tokens. Every failure is the \<^verbatim>\<open>SyntaxError\<close> that \<^verbatim>\<open>JSON.parse\<close> throws.
  An escape \<^verbatim>\<open>\uXXXX\<close> above \<^verbatim>\<open>00FF\<close> has no 8-bit character and is refused.
\<close>

datatype token =
    TLBrace | TRBrace | TLBracket | TRBracket | TComma | TColon
  | TNull | TTrue | TFalse
  | TString string
  | TNumber string

definition isWhite :: "char \<Rightarrow> bool" where
  "isWhite c = (c = CHR 0x20 \<or> c = CHR 0x09 \<or> c = CHR 0x0A \<or> c = CHR 0x0D)"

definition hexVal :: "char \<Rightarrow> int option" where
  "hexVal c =
     (if isDigit c then Some (digitVal c)
      else if c \<in> set ''abcdef'' then Some (of_char c - 87)
      else if c \<in> set ''ABCDEF'' then Some (of_char c - 55)
      else None)"

definition hex4 :: "char \<Rightarrow> char \<Rightarrow> char \<Rightarrow> char \<Rightarrow> int option" where
  "hex4 a b c d =
     (case (hexVal a, hexVal b, hexVal c, hexVal d) of
        (Some w, Some x, Some y, Some z) \<Rightarrow> Some (((w * 16 + x) * 16 + y) * 16 + z)
      | _ \<Rightarrow> None)"

definition unescape :: "char \<Rightarrow> char option" where
  "unescape e =
     (if e = dquote then Some dquote
      else if e = backslash then Some backslash
      else if e = CHR ''/'' then Some (CHR ''/'')
      else if e = CHR ''b'' then Some (CHR 0x08)
      else if e = CHR ''f'' then Some (CHR 0x0C)
      else if e = CHR ''n'' then Some (CHR 0x0A)
      else if e = CHR ''r'' then Some (CHR 0x0D)
      else if e = CHR ''t'' then Some (CHR 0x09)
      else None)"

definition consChar :: "char \<Rightarrow> (string \<times> string) option \<Rightarrow> (string \<times> string) option" where
  "consChar c r = (case r of None \<Rightarrow> None | Some (s, rest) \<Rightarrow> Some (c # s, rest))"

text \<open>The characters of a string literal after its opening quote, and the text after it.\<close>

fun lexString :: "string \<Rightarrow> (string \<times> string) option" where
  "lexString [] = None"
| "lexString (c # cs) =
     (if c = dquote then Some ([], cs)
      else if (of_char c :: nat) < 32 then None
      else if c = backslash then
        (case cs of
           [] \<Rightarrow> None
         | e # r \<Rightarrow>
             if e = CHR ''u'' then
               (case r of
                  h1 # h2 # h3 # h4 # r' \<Rightarrow>
                    (case hex4 h1 h2 h3 h4 of
                       None \<Rightarrow> None
                     | Some n \<Rightarrow> if n < 256 then consChar (char_of n) (lexString r') else None)
                | _ \<Rightarrow> None)
             else
               (case unescape e of
                  None \<Rightarrow> None
                | Some x \<Rightarrow> consChar x (lexString r)))
      else consChar c (lexString cs))"

text \<open>
  A number literal: \<^verbatim>\<open>-? (0 | [1-9][0-9]*) (. [0-9]+)? ([eE] [+-]? [0-9]+)?\<close>. Each part
  gives the characters it read and the text after them.
\<close>

definition intPart :: "string \<Rightarrow> (string \<times> string) option" where
  "intPart cs =
     (case cs of
        [] \<Rightarrow> None
      | c # r \<Rightarrow>
          if c = CHR ''0'' then Some ([c], r)
          else if isDigit c then Some (c # takeWhile isDigit r, dropWhile isDigit r)
          else None)"

definition fracPart :: "string \<Rightarrow> (string \<times> string) option" where
  "fracPart cs =
     (case cs of
        [] \<Rightarrow> Some ([], cs)
      | c # r \<Rightarrow>
          if c = CHR ''.'' then
            (if takeWhile isDigit r = [] then None
             else Some (c # takeWhile isDigit r, dropWhile isDigit r))
          else Some ([], cs))"

definition expDigits :: "string \<Rightarrow> string \<Rightarrow> (string \<times> string) option" where
  "expDigits pre r =
     (if takeWhile isDigit r = [] then None
      else Some (pre @ takeWhile isDigit r, dropWhile isDigit r))"

definition expPart :: "string \<Rightarrow> (string \<times> string) option" where
  "expPart cs =
     (case cs of
        [] \<Rightarrow> Some ([], cs)
      | c # r \<Rightarrow>
          if c = CHR ''e'' \<or> c = CHR ''E'' then
            (case r of
               [] \<Rightarrow> None
             | s # r' \<Rightarrow>
                 if s = CHR ''+'' \<or> s = CHR ''-'' then expDigits [c, s] r'
                 else expDigits [c] r)
          else Some ([], cs))"

definition lexNumber :: "string \<Rightarrow> (string \<times> string) option" where
  "lexNumber cs =
     (let (sg, r0) = (case cs of
                        [] \<Rightarrow> ([], cs)
                      | c # r \<Rightarrow> if c = CHR ''-'' then ([c], r) else ([], cs))
      in case intPart r0 of
           None \<Rightarrow> None
         | Some (ip, r1) \<Rightarrow>
             (case fracPart r1 of
                None \<Rightarrow> None
              | Some (fp, r2) \<Rightarrow>
                  (case expPart r2 of
                     None \<Rightarrow> None
                   | Some (ep, r3) \<Rightarrow> Some (sg @ ip @ fp @ ep, r3))))"

definition consToken :: "token \<Rightarrow> token list option \<Rightarrow> token list option" where
  "consToken t r = (case r of None \<Rightarrow> None | Some ts \<Rightarrow> Some (t # ts))"

lemma lexString_shorter: "lexString cs = Some (s, r) \<Longrightarrow> length r < length cs"
proof (induction cs arbitrary: s r rule: lexString.induct)
  case 1
  then show ?case by simp
next
  case (2 c cs)
  show ?case
    using "2.prems" "2.IH"
    by (fastforce simp: consChar_def
        split: if_splits list.splits option.splits prod.splits)
qed

lemma intPart_shorter: "intPart cs = Some (s, r) \<Longrightarrow> length r < length cs"
  by (auto simp: intPart_def less_Suc_eq_le length_dropWhile_le
      split: list.splits if_splits)

lemma fracPart_shorter: "fracPart cs = Some (s, r) \<Longrightarrow> length r \<le> length cs"
  by (auto simp: fracPart_def le_SucI length_dropWhile_le
      split: list.splits if_splits)

lemma expPart_shorter: "expPart cs = Some (s, r) \<Longrightarrow> length r \<le> length cs"
  by (auto simp: expPart_def expDigits_def le_SucI length_dropWhile_le
      split: list.splits if_splits)

lemma lexNumber_shorter: "lexNumber cs = Some (s, r) \<Longrightarrow> length r < length cs"
  unfolding lexNumber_def
  by (auto split: list.splits if_splits option.splits prod.splits
      dest!: intPart_shorter fracPart_shorter expPart_shorter)

definition punct :: "char \<Rightarrow> token option" where
  "punct c =
     (if c = CHR ''{'' then Some TLBrace
      else if c = CHR ''}'' then Some TRBrace
      else if c = CHR ''['' then Some TLBracket
      else if c = CHR '']'' then Some TRBracket
      else if c = CHR '','' then Some TComma
      else if c = CHR '':'' then Some TColon
      else None)"

text \<open>A number or one of the three literal names, and the text after it.\<close>

definition lexWord :: "string \<Rightarrow> (token \<times> string) option" where
  "lexWord cs =
     (case cs of
        [] \<Rightarrow> None
      | c # r \<Rightarrow>
          if c = CHR ''-'' \<or> isDigit c then
            (case lexNumber cs of None \<Rightarrow> None | Some (n, r') \<Rightarrow> Some (TNumber n, r'))
          else if take 4 cs = ''null'' then Some (TNull, drop 4 cs)
          else if take 4 cs = ''true'' then Some (TTrue, drop 4 cs)
          else if take 5 cs = ''false'' then Some (TFalse, drop 5 cs)
          else None)"

lemma lexWord_shorter: "lexWord cs = Some (t, r) \<Longrightarrow> length r < length cs"
  unfolding lexWord_def
  by (cases cs) (auto split: if_splits option.splits dest: lexNumber_shorter)

function tokenize :: "string \<Rightarrow> token list option" where
  "tokenize [] = Some []"
| "tokenize (c # cs) =
     (if isWhite c then tokenize cs
      else
        (case punct c of
           Some t \<Rightarrow> consToken t (tokenize cs)
         | None \<Rightarrow>
             if c = dquote then
               (case lexString cs of
                  None \<Rightarrow> None
                | Some (s, r) \<Rightarrow> consToken (TString s) (tokenize r))
             else
               (case lexWord (c # cs) of
                  None \<Rightarrow> None
                | Some (t, r) \<Rightarrow> consToken t (tokenize r))))"
  by pat_completeness auto
termination
proof (relation "measure length")
  show "wf (measure length)" by simp
next
  fix c cs s r x
  assume "lexString cs = Some x" "(s, r) = x"
  then show "(r, c # cs) \<in> measure length"
    using lexString_shorter [of cs s r] by simp
next
  fix c cs t r x
  assume "lexWord (c # cs) = Some x" "(t, r) = x"
  then show "(r, c # cs) \<in> measure length"
    using lexWord_shorter [of "c # cs" t r] by simp
qed simp_all

declare tokenize.simps [simp del]

text \<open>
  The stack machine. A frame is an array or an object under construction, or the key
  whose value is being read; \<open>expect\<close> says what the next token may be.
\<close>

datatype frame =
    InArr "json list"
  | InObj "(string \<times> json) list"
  | AtKey string

datatype expect =
    Value | ValueOrClose | KeyOrClose | Key | Colon | CommaOrClose
  | Done json

text \<open>A value is complete: it is the result, or it goes into the innermost container.\<close>

fun complete :: "json \<Rightarrow> frame list \<Rightarrow> (expect \<times> frame list) option" where
  "complete v [] = Some (Done v, [])"
| "complete v (InArr vs # fs) = Some (CommaOrClose, InArr (vs @ [v]) # fs)"
| "complete v (AtKey k # InObj kvs # fs) = Some (CommaOrClose, InObj (setProp k v kvs) # fs)"
| "complete v _ = None"

fun startValue :: "token \<Rightarrow> frame list \<Rightarrow> (expect \<times> frame list) option" where
  "startValue TNull fs = complete JNull fs"
| "startValue TTrue fs = complete (JBool True) fs"
| "startValue TFalse fs = complete (JBool False) fs"
| "startValue (TString s) fs = complete (JStr s) fs"
| "startValue (TNumber n) fs = complete (JNum n) fs"
| "startValue TLBracket fs = Some (ValueOrClose, InArr [] # fs)"
| "startValue TLBrace fs = Some (KeyOrClose, InObj [] # fs)"
| "startValue _ fs = None"

fun closeArr :: "frame list \<Rightarrow> (expect \<times> frame list) option" where
  "closeArr (InArr vs # fs) = complete (JArr vs) fs"
| "closeArr _ = None"

fun closeObj :: "frame list \<Rightarrow> (expect \<times> frame list) option" where
  "closeObj (InObj kvs # fs) = complete (JObj kvs) fs"
| "closeObj _ = None"

fun step :: "expect \<Rightarrow> frame list \<Rightarrow> token \<Rightarrow> (expect \<times> frame list) option" where
  "step Value fs t = startValue t fs"
| "step ValueOrClose fs t = (if t = TRBracket then closeArr fs else startValue t fs)"
| "step KeyOrClose fs t =
     (case t of TString k \<Rightarrow> Some (Colon, AtKey k # fs) | TRBrace \<Rightarrow> closeObj fs | _ \<Rightarrow> None)"
| "step Key fs t = (case t of TString k \<Rightarrow> Some (Colon, AtKey k # fs) | _ \<Rightarrow> None)"
| "step Colon fs t = (if t = TColon then Some (Value, fs) else None)"
| "step CommaOrClose fs t =
     (case t of
        TComma \<Rightarrow> (case fs of
                     InArr vs # fs' \<Rightarrow> Some (Value, fs)
                   | InObj kvs # fs' \<Rightarrow> Some (Key, fs)
                   | _ \<Rightarrow> None)
      | TRBracket \<Rightarrow> closeArr fs
      | TRBrace \<Rightarrow> closeObj fs
      | _ \<Rightarrow> None)"
| "step (Done v) fs t = None"

fun run :: "token list \<Rightarrow> expect \<Rightarrow> frame list \<Rightarrow> (expect \<times> frame list) option" where
  "run [] e fs = Some (e, fs)"
| "run (t # ts) e fs = (case step e fs t of None \<Rightarrow> None | Some (e', fs') \<Rightarrow> run ts e' fs')"

definition JSON_parse :: "string \<Rightarrow> error + json" where
  "JSON_parse s =
     (case tokenize s of
        None \<Rightarrow> Inl SyntaxError
      | Some ts \<Rightarrow>
          (case run ts Value [] of
             Some (Done v, []) \<Rightarrow> Inr v
           | _ \<Rightarrow> Inl SyntaxError))"

subsection \<open>\<^verbatim>\<open>localStorage\<close>\<close>

text \<open>
  The items of the storage area, and the calls of \<^verbatim>\<open>setItem\<close> so far in their order (kept
  to count the writes). \<^verbatim>\<open>getItem\<close> gives \<^verbatim>\<open>null\<close> (\<open>None\<close>) for a key that is not there.
\<close>

record storage =
  items :: "string \<rightharpoonup> string"
  setItemCalls :: "(string \<times> string) list"

definition getItem :: "storage \<Rightarrow> string \<Rightarrow> string option" where
  "getItem st k = items st k"

definition setItem :: "string \<Rightarrow> string \<Rightarrow> storage \<Rightarrow> storage" where
  "setItem k v st = st\<lparr>items := (items st)(k \<mapsto> v), setItemCalls := setItemCalls st @ [(k, v)]\<rparr>"

text \<open>The storage of a first visit: no item, no call yet.\<close>

definition emptyStorage :: storage where
  "emptyStorage = \<lparr>items = Map.empty, setItemCalls = []\<rparr>"

subsection \<open>The settings record\<close>

datatype text_size = Em1 | Em1_25

datatype letter_spacing = SpacingNormal | SpacingWide

datatype font_family = SansSerif | Serif

record AccessibilitySettings =
  highlightLinks :: bool
  colorShift :: bool
  animationsEnabled :: bool
  highContrast :: bool
  focusEnabled :: bool
  cursorEnabled :: bool
  textSize :: text_size
  spacing :: letter_spacing
  font :: font_family
  imagesVisible :: bool
  showPageStructure :: bool
  guideEnabled :: bool

text \<open>The string each value of the three union types is in the source.\<close>

fun textSizeStr :: "text_size \<Rightarrow> string" where
  "textSizeStr Em1 = ''1em''"
| "textSizeStr Em1_25 = ''1.25em''"

fun spacingStr :: "letter_spacing \<Rightarrow> string" where
  "spacingStr SpacingNormal = ''normal''"
| "spacingStr SpacingWide = ''wide''"

fun fontStr :: "font_family \<Rightarrow> string" where
  "fontStr SansSerif = ''sans-serif''"
| "fontStr Serif = ''serif''"

definition defaultSettings :: AccessibilitySettings where
  "defaultSettings =
     \<lparr> highlightLinks = False,
       colorShift = False,
       animationsEnabled = True,
       highContrast = False,
       focusEnabled = False,
       cursorEnabled = False,
       textSize = Em1,
       spacing = SpacingNormal,
       font = SansSerif,
       imagesVisible = True,
       showPageStructure = False,
       guideEnabled = False \<rparr>"

text \<open>
  The JavaScript object a settings record is: its twelve properties, in the order the
  object literal \<^verbatim>\<open>defaultSettings\<close> creates them (a spread copy keeps that order).
\<close>

definition toJS :: "AccessibilitySettings \<Rightarrow> json" where
  "toJS s =
     JObj [ (''highlightLinks'', JBool (highlightLinks s)),
            (''colorShift'', JBool (colorShift s)),
            (''animationsEnabled'', JBool (animationsEnabled s)),
            (''highContrast'', JBool (highContrast s)),
            (''focusEnabled'', JBool (focusEnabled s)),
            (''cursorEnabled'', JBool (cursorEnabled s)),
            (''textSize'', JStr (textSizeStr (textSize s))),
            (''spacing'', JStr (spacingStr (spacing s))),
            (''font'', JStr (fontStr (font s))),
            (''imagesVisible'', JBool (imagesVisible s)),
            (''showPageStructure'', JBool (showPageStructure s)),
            (''guideEnabled'', JBool (guideEnabled s)) ]"






subsection \<open>The component: state, effects and state updates\<close>

text \<open>
  The state \<^verbatim>\<open>settings\<close> of the component and the storage it writes. The flags \<^verbatim>\<open>isOpen\<close>,
  \<^verbatim>\<open>isHidden\<close> and \<^verbatim>\<open>isRemoved\<close> touch neither and are left out.
\<close>

record widget =
  settings :: json
  localStorage :: storage

definition storageKey :: string where
  "storageKey = ''accessibilitySettings''"

text \<open>
  The first effect (lines 43-48), run once on mount: the argument of the call of
  \<^verbatim>\<open>setSettings\<close>, \<open>None\<close> when the effect does not call it. An empty string is falsy, as
  \<^verbatim>\<open>null\<close> is. \<^verbatim>\<open>JSON.parse\<close> is called outside any \<^verbatim>\<open>try\<close>: its error is the effect's.
\<close>

definition loadEffect :: "storage \<Rightarrow> error + json option" where
  "loadEffect st =
     (case getItem st storageKey of
        None \<Rightarrow> Inr None
      | Some savedSettings \<Rightarrow>
          if savedSettings = [] then Inr None
          else (case JSON_parse savedSettings of
                  Inl e \<Rightarrow> Inl e
                | Inr v \<Rightarrow> Inr (Some v)))"

text \<open>
  The value of \<^verbatim>\<open>settings\<close> once the first effect has run: the initial state
  \<^verbatim>\<open>defaultSettings\<close> unless the effect has set another.
\<close>

definition load :: "storage \<Rightarrow> error + json" where
  "load st =
     (case loadEffect st of
        Inl e \<Rightarrow> Inl e
      | Inr None \<Rightarrow> Inr (toJS defaultSettings)
      | Inr (Some v) \<Rightarrow> Inr v)"

text \<open>The second effect (lines 51-53), run after every render in which \<^verbatim>\<open>settings\<close> is new.\<close>

definition save :: "json \<Rightarrow> storage \<Rightarrow> storage" where
  "save s st = setItem storageKey (JSON_stringify s) st"

definition saveEffect :: "widget \<Rightarrow> widget" where
  "saveEffect w = w\<lparr>localStorage := save (settings w) (localStorage w)\<rparr>"

text \<open>
  Rendering reads \<^verbatim>\<open>settings.showPageStructure\<close> (line 400) whatever the flags are, short
  of \<^verbatim>\<open>isRemoved\<close>: a \<^verbatim>\<open>TypeError\<close> when the state is \<^verbatim>\<open>null\<close>.
\<close>

definition render :: "json \<Rightarrow> error + bool" where
  "render s =
     (case getProp s ''showPageStructure'' of
        Inl e \<Rightarrow> Inl e
      | Inr p \<Rightarrow> Inr (truthy p))"

text \<open>
  Mounting: the first render has the default settings; its effects run in order, the
  first asking for a new state and the second saving the defaults; a new state is
  rendered and saved in its turn.
\<close>

definition mount :: "storage \<Rightarrow> error + widget" where
  "mount st =
     (case loadEffect st of
        Inl e \<Rightarrow> Inl e
      | Inr None \<Rightarrow>
          Inr (saveEffect \<lparr>settings = toJS defaultSettings, localStorage = st\<rparr>)
      | Inr (Some v) \<Rightarrow>
          (let w = saveEffect \<lparr>settings = toJS defaultSettings, localStorage = st\<rparr>
           in case render v of
                Inl e \<Rightarrow> Inl e
              | Inr _ \<Rightarrow> Inr (saveEffect (w\<lparr>settings := v\<rparr>))))"

text \<open>
  The three state updates, as functions of the previous state.
  \<^verbatim>\<open>handleSettingChange\<close> (lines 130-135) is \<^verbatim>\<open>{ ...prev, [key]: value }\<close>,
  \<^verbatim>\<open>togglePageStructure\<close> (lines 120-122) is
  \<^verbatim>\<open>{ ...prev, showPageStructure: !prev.showPageStructure }\<close>, and \<^verbatim>\<open>resetSettings\<close>
  (lines 125-127) sets \<^verbatim>\<open>defaultSettings\<close>.
\<close>

definition handleSettingChange :: "string \<Rightarrow> json \<Rightarrow> json \<Rightarrow> json" where
  "handleSettingChange key val prev = JObj (setProp key val (spread prev))"

definition togglePageStructure :: "json \<Rightarrow> error + json" where
  "togglePageStructure prev =
     (case getProp prev ''showPageStructure'' of
        Inl e \<Rightarrow> Inl e
      | Inr p \<Rightarrow> Inr (JObj (setProp ''showPageStructure'' (JBool (\<not> truthy p)) (spread prev))))"

definition resetSettings :: "json \<Rightarrow> json" where
  "resetSettings prev = toJS defaultSettings"

text \<open>
  An event of the panel calls one of the three; the new state is a new object, so the
  component renders again and the second effect saves it.
\<close>

datatype event = Change string json | TogglePageStructure | Reset

fun update :: "event \<Rightarrow> json \<Rightarrow> error + json" where
  "update (Change key val) prev = Inr (handleSettingChange key val prev)"
| "update TogglePageStructure prev = togglePageStructure prev"
| "update Reset prev = Inr (resetSettings prev)"

definition dispatch :: "event \<Rightarrow> widget \<Rightarrow> error + widget" where
  "dispatch ev w =
     (case update ev (settings w) of
        Inl e \<Rightarrow> Inl e
      | Inr s \<Rightarrow> Inr (saveEffect (w\<lparr>settings := s\<rparr>)))"

fun dispatchAll :: "event list \<Rightarrow> widget \<Rightarrow> error + widget" where
  "dispatchAll [] w = Inr w"
| "dispatchAll (ev # evs) w =
     (case dispatch ev w of
        Inl e \<Rightarrow> Inl e
      | Inr w' \<Rightarrow> dispatchAll evs w')"


subsection \<open>The document\<close>

text \<open>
  The inline style of an element: the properties the component assigns, each with the
  text assigned to it; the empty string is a property that is not set (assigning the
  empty string removes the declaration).
\<close>

record css =
  backgroundColor :: string
  fontSize :: string
  filterCss :: string
  letterSpacing :: string
  fontFamily :: string
  animation :: string
  outline :: string
  cursor :: string
  display :: string
  position :: string
  topCss :: string
  leftCss :: string
  width :: string
  height :: string
  zIndex :: string
  pointerEvents :: string

definition noStyle :: css where
  "noStyle =
     \<lparr> backgroundColor = [], fontSize = [], filterCss = [], letterSpacing = [],
       fontFamily = [], animation = [], outline = [], cursor = [], display = [],
       position = [], topCss = [], leftCss = [], width = [], height = [], zIndex = [],
       pointerEvents = [] \<rparr>"

text \<open>
  A node is a text or an element: its tag name in lower case (what
  \<^verbatim>\<open>el.tagName.toLowerCase()\<close> gives), its id (empty when it has none), its \<^verbatim>\<open>href\<close>
  attribute, its inline style and its children.
\<close>

datatype node =
    Text string
  | Element (tag: string) (elemId: string) (href: "string option") (style: css)
      (children: "node list")

text \<open>
  A document is its document element, when it has one (for a page, the element \<^verbatim>\<open>html\<close>
  with its children \<^verbatim>\<open>head\<close> and \<^verbatim>\<open>body\<close>); a document without element is \<open>None\<close>.
\<close>

type_synonym document = "node option"

definition rootNodes :: "document \<Rightarrow> node list" where
  "rootNodes d = (case d of None \<Rightarrow> [] | Some n \<Rightarrow> [n])"

text \<open>\<^verbatim>\<open>document.documentElement\<close>, \<^verbatim>\<open>null\<close> (\<open>None\<close>) when there is none.\<close>

definition documentElement :: "document \<Rightarrow> node option" where
  "documentElement d =
     (case d of
        Some (Element t e h st cs) \<Rightarrow> Some (Element t e h st cs)
      | _ \<Rightarrow> None)"

text \<open>
  \<^verbatim>\<open>document.body\<close>: the first child of the element \<^verbatim>\<open>html\<close> that is a \<^verbatim>\<open>body\<close> or a
  \<^verbatim>\<open>frameset\<close>, \<^verbatim>\<open>null\<close> when there is none.
\<close>

definition isBodyTag :: "string \<Rightarrow> bool" where
  "isBodyTag t = (t = ''body'' \<or> t = ''frameset'')"

fun firstChild :: "(string \<Rightarrow> bool) \<Rightarrow> node list \<Rightarrow> node option" where
  "firstChild p [] = None"
| "firstChild p (Text x # ns) = firstChild p ns"
| "firstChild p (Element t e h st cs # ns) =
     (if p t then Some (Element t e h st cs) else firstChild p ns)"

definition body :: "document \<Rightarrow> node option" where
  "body d =
     (case d of
        Some (Element t e h st cs) \<Rightarrow> if t = ''html'' then firstChild isBodyTag cs else None
      | _ \<Rightarrow> None)"

text \<open>
  Writing to an element: \<^verbatim>\<open>el.style.p = v\<close> and \<^verbatim>\<open>el.appendChild(n)\<close>.
\<close>

fun withStyle :: "(css \<Rightarrow> css) \<Rightarrow> node \<Rightarrow> node" where
  "withStyle f (Text x) = Text x"
| "withStyle f (Element t e h st cs) = Element t e h (f st) cs"

fun appendChild :: "node \<Rightarrow> node \<Rightarrow> node" where
  "appendChild n (Text x) = Text x"
| "appendChild n (Element t e h st cs) = Element t e h st (cs @ [n])"

text \<open>
  A write to \<^verbatim>\<open>document.documentElement\<close> or to \<^verbatim>\<open>document.body\<close> is a \<^verbatim>\<open>TypeError\<close> when
  that is \<^verbatim>\<open>null\<close>. \<open>updateFirst\<close> writes to the first child that \<open>firstChild\<close> finds.
\<close>

fun updateFirst :: "(string \<Rightarrow> bool) \<Rightarrow> (node \<Rightarrow> node) \<Rightarrow> node list \<Rightarrow> node list option" where
  "updateFirst p g [] = None"
| "updateFirst p g (Text x # ns) = map_option ((#) (Text x)) (updateFirst p g ns)"
| "updateFirst p g (Element t e h st cs # ns) =
     (if p t then Some (g (Element t e h st cs) # ns)
      else map_option ((#) (Element t e h st cs)) (updateFirst p g ns))"

definition onDocumentElement :: "(node \<Rightarrow> node) \<Rightarrow> document \<Rightarrow> error + document" where
  "onDocumentElement g d =
     (case d of
        Some (Element t e h st cs) \<Rightarrow> Inr (Some (g (Element t e h st cs)))
      | _ \<Rightarrow> Inl TypeError)"

definition onBody :: "(node \<Rightarrow> node) \<Rightarrow> document \<Rightarrow> error + document" where
  "onBody g d =
     (case d of
        Some (Element t e h st cs) \<Rightarrow>
          if t = ''html'' then
            (case updateFirst isBodyTag g cs of
               None \<Rightarrow> Inl TypeError
             | Some cs' \<Rightarrow> Inr (Some (Element t e h st cs')))
          else Inl TypeError
      | _ \<Rightarrow> Inl TypeError)"

text \<open>
  \<^verbatim>\<open>querySelectorAll(sel).forEach(el => el.style.p = v)\<close> below one node: \<open>sel\<close> says which
  tag names the selector matches, \<open>f\<close> is the assignment.
\<close>

fun forEachSelected :: "(string \<Rightarrow> bool) \<Rightarrow> (css \<Rightarrow> css) \<Rightarrow> node \<Rightarrow> node" where
  "forEachSelected sel f (Text s) = Text s"
| "forEachSelected sel f (Element t i h st cs) =
     Element t i h (if sel t then f st else st) (map (forEachSelected sel f) cs)"

text \<open>The same over the whole document, from the document element down.\<close>

definition forEachInDocument :: "(string \<Rightarrow> bool) \<Rightarrow> (css \<Rightarrow> css) \<Rightarrow> document \<Rightarrow> document" where
  "forEachInDocument sel f d = map_option (forEachSelected sel f) d"

text \<open>\<^verbatim>\<open>getElementById\<close>: the first element with the id, in document order.\<close>

fun findById :: "string \<Rightarrow> node list \<Rightarrow> node option" where
  "findById i [] = None"
| "findById i (Text s # ns) = findById i ns"
| "findById i (Element t e h st cs # ns) =
     (if e = i then Some (Element t e h st cs)
      else (case findById i cs of
              Some n \<Rightarrow> Some n
            | None \<Rightarrow> findById i ns))"

definition getElementById :: "string \<Rightarrow> document \<Rightarrow> node option" where
  "getElementById i d = findById i (rootNodes d)"

text \<open>
  \<^verbatim>\<open>getElementById(i).remove()\<close>: the nodes without the first element with the id (and
  without what is below it). Removing the document element leaves the document without
  element.
\<close>

fun removeFirst :: "string \<Rightarrow> node list \<Rightarrow> node list" where
  "removeFirst i [] = []"
| "removeFirst i (Text s # ns) = Text s # removeFirst i ns"
| "removeFirst i (Element t e h st cs # ns) =
     (if e = i then ns
      else if findById i cs \<noteq> None then Element t e h st (removeFirst i cs) # ns
      else Element t e h st cs # removeFirst i ns)"

definition removeById :: "string \<Rightarrow> document \<Rightarrow> document" where
  "removeById i d = (case removeFirst i (rootNodes d) of [] \<Rightarrow> None | n # ns \<Rightarrow> Some n)"

text \<open>The elements below some nodes that a selector matches, in document order.\<close>

fun selectAll :: "(string \<Rightarrow> bool) \<Rightarrow> node list \<Rightarrow> node list" where
  "selectAll sel [] = []"
| "selectAll sel (Text s # ns) = selectAll sel ns"
| "selectAll sel (Element t e h st cs # ns) =
     (if sel t then [Element t e h st cs] else []) @ selectAll sel cs @ selectAll sel ns"

definition querySelectorAll :: "(string \<Rightarrow> bool) \<Rightarrow> document \<Rightarrow> node list" where
  "querySelectorAll sel d = selectAll sel (rootNodes d)"

text \<open>\<^verbatim>\<open>textContent\<close>: the texts below a node, in order.\<close>

fun textContent :: "node \<Rightarrow> string" where
  "textContent (Text s) = s"
| "textContent (Element t e h st cs) = concat (map textContent cs)"

text \<open>
  \<^verbatim>\<open>String.prototype.trim\<close>: white space and line terminators go from both ends (those
  among the 8-bit characters).
\<close>

definition isSpace :: "char \<Rightarrow> bool" where
  "isSpace c = (c \<in> set [CHR 0x09, CHR 0x0A, CHR 0x0B, CHR 0x0C, CHR 0x0D, CHR 0x20, CHR 0xA0])"

definition trim :: "string \<Rightarrow> string" where
  "trim s = rev (dropWhile isSpace (rev (dropWhile isSpace s)))"

subsection \<open>The third effect: applying the settings to the document\<close>

text \<open>Lines 66-69: the value assigned to the \<^verbatim>\<open>filter\<close> of the root.\<close>

definition filterStr :: "AccessibilitySettings \<Rightarrow> string" where
  "filterStr s =
     (let f0 = [];
          f1 = (if highContrast s then f0 @ '' contrast(2)'' else f0);
          f2 = (if colorShift s then f1 @ '' invert(1)'' else f1)
      in f2)"

definition filterValue :: "AccessibilitySettings \<Rightarrow> string" where
  "filterValue s = (if trim (filterStr s) \<noteq> [] then trim (filterStr s) else ''none'')"

definition guideId :: string where
  "guideId = ''reading-guide-line''"

text \<open>Lines 102-111: the element the effect creates.\<close>

definition newGuideLine :: node where
  "newGuideLine =
     Element ''div'' guideId None
       (noStyle\<lparr> position := ''fixed'', topCss := ''50%'', leftCss := ''0'',
                 width := ''100%'', height := ''2px'', backgroundColor := ''red'',
                 zIndex := ''1000'', pointerEvents := ''none'' \<rparr>)
       []"

text \<open>
  The statements of the effect run in order, and a \<^verbatim>\<open>TypeError\<close> ends the effect: the
  result is then the error (what the statements before it wrote is not given).
\<close>

definition andThen :: "error + 'a \<Rightarrow> ('a \<Rightarrow> error + 'b) \<Rightarrow> error + 'b" where
  "andThen r k = (case r of Inl e \<Rightarrow> Inl e | Inr x \<Rightarrow> k x)"

text \<open>Lines 57-94, in the order of the source.\<close>

definition applyStyles :: "AccessibilitySettings \<Rightarrow> document \<Rightarrow> error + document" where
  "applyStyles s d =
     andThen (Inr (forEachInDocument (\<lambda>t. t = ''a'')
        (\<lambda>st. st\<lparr>backgroundColor := (if highlightLinks s then ''#FFFF00'' else [])\<rparr>) d)) (\<lambda>d1.
     andThen (onDocumentElement
        (withStyle (\<lambda>st. st\<lparr>fontSize := textSizeStr (textSize s)\<rparr>)) d1) (\<lambda>d2.
     andThen (onDocumentElement
        (withStyle (\<lambda>st. st\<lparr>filterCss := filterValue s\<rparr>)) d2) (\<lambda>d3.
     andThen (onDocumentElement
        (withStyle (\<lambda>st. st\<lparr>letterSpacing :=
           (if spacing s = SpacingWide then ''0.1em'' else ''normal'')\<rparr>)) d3) (\<lambda>d4.
     andThen (onDocumentElement
        (withStyle (\<lambda>st. st\<lparr>fontFamily := fontStr (font s)\<rparr>)) d4) (\<lambda>d5.
     andThen (onDocumentElement
        (withStyle (\<lambda>st. st\<lparr>animation := (if animationsEnabled s then [] else ''none'')\<rparr>)) d5)
        (\<lambda>d6.
     andThen (Inr (forEachInDocument (\<lambda>t. True)
        (\<lambda>st. st\<lparr>outline := (if focusEnabled s then ''2px solid #0000FF'' else [])\<rparr>) d6)) (\<lambda>d7.
     andThen (onBody
        (withStyle (\<lambda>st. st\<lparr>cursor := (if cursorEnabled s then ''pointer'' else [])\<rparr>)) d7) (\<lambda>d8.
     Inr (forEachInDocument (\<lambda>t. t = ''img'')
        (\<lambda>st. st\<lparr>display := (if imagesVisible s then ''block'' else ''none'')\<rparr>) d8)))))))))"

text \<open>Lines 97-116: the reading guide line.\<close>

definition applyGuide :: "AccessibilitySettings \<Rightarrow> document \<Rightarrow> error + document" where
  "applyGuide s d =
     (let guideLine = getElementById guideId d
      in if guideEnabled s then
           (if guideLine = None then onBody (appendChild newGuideLine) d else Inr d)
         else if guideLine \<noteq> None then Inr (removeById guideId d)
         else Inr d)"

definition applySettings :: "AccessibilitySettings \<Rightarrow> document \<Rightarrow> error + document" where
  "applySettings s d = andThen (applyStyles s d) (applyGuide s)"

text \<open>What the claims observe of a document.\<close>

fun countId :: "string \<Rightarrow> node list \<Rightarrow> nat" where
  "countId i [] = 0"
| "countId i (Text s # ns) = countId i ns"
| "countId i (Element t e h st cs # ns) =
     (if e = i then 1 else 0) + countId i cs + countId i ns"

definition guideCount :: "document \<Rightarrow> nat" where
  "guideCount d = countId guideId (rootNodes d)"

definition imgDisplays :: "document \<Rightarrow> string list" where
  "imgDisplays d = map (\<lambda>n. display (style n)) (querySelectorAll (\<lambda>t. t = ''img'') d)"

fun contains :: "string \<Rightarrow> string \<Rightarrow> bool" where
  "contains t [] = (t = [])"
| "contains t (c # cs) = (take (length t) (c # cs) = t \<or> contains t cs)"

subsection \<open>\<^verbatim>\<open>renderPageStructure\<close>\<close>

text \<open>
  Lines 138-183. What is rendered is a list of sections, each a title and its entries;
  \<^verbatim>\<open>cond && (...)\<close> renders nothing when the condition is false.
\<close>

definition orNA :: "string \<Rightarrow> string" where
  "orNA s = (if s \<noteq> [] then s else ''N/A'')"

definition landmarkEntry :: "node \<Rightarrow> string" where
  "landmarkEntry el = tag el @ '' (id: '' @ orNA (elemId el) @ '')''"

definition headingEntry :: "node \<Rightarrow> string" where
  "headingEntry el =
     tag el @ '': '' @ (if textContent el \<noteq> [] then trim (textContent el) else ''N/A'')"

definition linkEntry :: "node \<Rightarrow> string" where
  "linkEntry el = (case href el of None \<Rightarrow> ''N/A'' | Some h \<Rightarrow> orNA h)"

definition landmarks :: "document \<Rightarrow> node list" where
  "landmarks d = querySelectorAll (\<lambda>t. t \<in> set [''header'', ''nav'', ''main'', ''footer'']) d"

definition headings :: "document \<Rightarrow> node list" where
  "headings d = querySelectorAll (\<lambda>t. t \<in> set [''h1'', ''h2'', ''h3'', ''h4'', ''h5'', ''h6'']) d"

definition links :: "document \<Rightarrow> node list" where
  "links d = querySelectorAll (\<lambda>t. t = ''a'') d"

definition renderPageStructure :: "document \<Rightarrow> (string \<times> string list) list" where
  "renderPageStructure d =
     (if length (landmarks d) > 0 then [(''Landmarks'', map landmarkEntry (landmarks d))] else [])
     @ (if length (headings d) > 0 then [(''Headings'', map headingEntry (headings d))] else [])
     @ (if length (links d) > 0 then [(''Links'', map linkEntry (links d))] else [])"

text \<open>
  Three pages: one with nothing in head and body; one with two headings, a link and an
  image; and one whose body has the id of the guide line.
\<close>

definition blankDocument :: document where
  "blankDocument =
     Some (Element ''html'' [] None noStyle
       [Element ''head'' [] None noStyle [], Element ''body'' [] None noStyle []])"

definition samplePage :: document where
  "samplePage =
     Some (Element ''html'' [] None noStyle
       [Element ''head'' [] None noStyle
          [Element ''title'' [] None noStyle [Text ''Mile 3 Pizza'']],
        Element ''body'' [] None noStyle
          [Element ''h1'' [] None noStyle
             [Text '' Mile 3 '', Element ''a'' ''home'' (Some ''/'') noStyle [Text ''home'']],
           Element ''img'' ''logo'' None (noStyle\<lparr>display := ''inline''\<rparr>) [],
           Element ''h2'' [] None noStyle []]])"

definition guideBodyPage :: document where
  "guideBodyPage =
     Some (Element ''html'' [] None noStyle
       [Element ''head'' [] None noStyle [], Element ''body'' guideId None noStyle []])"

subsection \<open>Notions for the proofs about JSON texts\<close>

text \<open>
  The texts the component writes are flat objects whose keys and string values need no
  escape and whose other values are booleans. The tokens of such an object, to say what
  \<open>tokenize\<close> makes of its text.
\<close>

definition plainChar :: "char \<Rightarrow> bool" where
  "plainChar c = (32 \<le> (of_char c :: nat) \<and> c \<noteq> dquote \<and> c \<noteq> backslash)"

definition plain :: "string \<Rightarrow> bool" where
  "plain s = list_all plainChar s"

fun simpleValue :: "json \<Rightarrow> bool" where
  "simpleValue (JBool b) = True"
| "simpleValue (JStr s) = plain s"
| "simpleValue _ = False"

fun valueToken :: "json \<Rightarrow> token" where
  "valueToken (JBool b) = (if b then TTrue else TFalse)"
| "valueToken (JStr s) = TString s"
| "valueToken _ = TNull"

fun memberTokens :: "(string \<times> json) list \<Rightarrow> token list" where
  "memberTokens [] = []"
| "memberTokens [(k, v)] = [TString k, TColon, valueToken v]"
| "memberTokens ((k, v) # kv # kvs) = [TString k, TColon, valueToken v, TComma] @ memberTokens (kv # kvs)"

definition simpleMember :: "string \<times> json \<Rightarrow> bool" where
  "simpleMember kv = (plain (fst kv) \<and> \<not> isIndex (fst kv) \<and> simpleValue (snd kv))"

subsection \<open>Notions for the proofs about the document\<close>

text \<open>
  What the three loops of the effect do below one node.
\<close>

definition styleNode :: "AccessibilitySettings \<Rightarrow> node \<Rightarrow> node" where
  "styleNode s n =
     forEachSelected (\<lambda>t. t = ''img'')
       (\<lambda>st. st\<lparr>display := (if imagesVisible s then ''block'' else ''none'')\<rparr>)
       (forEachSelected (\<lambda>t. True)
          (\<lambda>st. st\<lparr>outline := (if focusEnabled s then ''2px solid #0000FF'' else [])\<rparr>)
          (forEachSelected (\<lambda>t. t = ''a'')
             (\<lambda>st. st\<lparr>backgroundColor := (if highlightLinks s then ''#FFFF00'' else [])\<rparr>) n))"

text \<open>What the effect writes to the style of the root, and to that of the body.\<close>

definition rootStyle :: "AccessibilitySettings \<Rightarrow> css \<Rightarrow> css" where
  "rootStyle s st =
     st\<lparr> fontSize := textSizeStr (textSize s), filterCss := filterValue s,
         letterSpacing := (if spacing s = SpacingWide then ''0.1em'' else ''normal''),
         fontFamily := fontStr (font s),
         animation := (if animationsEnabled s then [] else ''none''),
         outline := (if focusEnabled s then ''2px solid #0000FF'' else []) \<rparr>"

definition cursorStyle :: "AccessibilitySettings \<Rightarrow> css \<Rightarrow> css" where
  "cursorStyle s st = st\<lparr>cursor := (if cursorEnabled s then ''pointer'' else [])\<rparr>"

text \<open>The displays of the images below some nodes.\<close>

definition imgNodes :: "node list \<Rightarrow> string list" where
  "imgNodes ns = map (\<lambda>n. display (style n)) (selectAll (\<lambda>t. t = ''img'') ns)"

text \<open>
  The documents the style phase of the effect leaves: the root is the element \<^verbatim>\<open>html\<close> with a
  body, and writing the styles again changes nothing.
\<close>

definition styled :: "AccessibilitySettings \<Rightarrow> document \<Rightarrow> bool" where
  "styled s d =
     (case d of
        Some (Element t e h st cs) \<Rightarrow>
          t = ''html'' \<and> rootStyle s st = st \<and> map (styleNode s) cs = cs
          \<and> updateFirst isBodyTag (withStyle (cursorStyle s)) cs = Some cs
      | _ \<Rightarrow> False)"

section \<open>Properties\<close>

subsection \<open>Parsing what \<^verbatim>\<open>JSON.stringify\<close> wrote\<close>

lemma quoteChar_plain: "plainChar c \<Longrightarrow> quoteChar c = [c]"
  by (auto simp: plainChar_def quoteChar_def)

lemma quote_plain: "plain s \<Longrightarrow> quoteJSONString s = dquote # s @ [dquote]"
  unfolding quoteJSONString_def plain_def
  by (induction s) (simp_all add: quoteChar_plain)

lemma lexString_plain: "plain s \<Longrightarrow> lexString (s @ dquote # r) = Some (s, r)"
  unfolding plain_def
  by (induction s) (auto simp: plainChar_def consChar_def)

lemma tokenize_punct: "punct c = Some t \<Longrightarrow> tokenize (c # cs) = consToken t (tokenize cs)"
  by (auto simp: tokenize.simps punct_def isWhite_def split: if_splits)

lemma tokenize_quoted: "plain s \<Longrightarrow> tokenize (quoteJSONString s @ r) = consToken (TString s) (tokenize r)"
  by (simp add: quote_plain tokenize.simps isWhite_def punct_def dquote_def lexString_plain [unfolded dquote_def])

lemma tokenize_value:
  assumes "simpleValue v"
  shows "tokenize (JSON_stringify v @ r) = consToken (valueToken v) (tokenize r)"
proof (cases v)
  case (JBool b)
  then show ?thesis
    by (cases b) (simp_all add: tokenize.simps isWhite_def punct_def dquote_def lexWord_def isDigit_def)
next
  case (JStr s)
  then show ?thesis using assms by (simp add: tokenize_quoted)
qed (use assms in simp_all)

lemma tokenize_member:
  assumes "simpleMember (k, v)"
  shows "tokenize (quoteJSONString k @ '':'' @ JSON_stringify v @ r)
         = consToken (TString k) (consToken TColon (consToken (valueToken v) (tokenize r)))"
  using assms
  by (simp add: simpleMember_def tokenize_quoted tokenize_punct [of "CHR '':''" TColon] punct_def tokenize_value)

lemma tokenize_members:
  assumes "kvs \<noteq> []" "list_all simpleMember kvs"
  shows "tokenize (joinWith '','' (map (\<lambda>(k, v). quoteJSONString k @ '':'' @ JSON_stringify v) kvs) @ ''}'')
         = Some (memberTokens kvs @ [TRBrace])"
  using assms
proof (induction kvs rule: memberTokens.induct)
  case 1
  then show ?case by simp
next
  case (2 k v)
  then show ?case
    using tokenize_member [of k v "''}''"]
    by (simp add: tokenize_punct [of "CHR ''}''" TRBrace] punct_def tokenize.simps(1) consToken_def)
next
  case (3 k v kv kvs)
  then show ?case
    using tokenize_member [of k v "'','' @ joinWith '','' (map (\<lambda>(k, v). quoteJSONString k @ '':'' @ JSON_stringify v) (kv # kvs)) @ ''}''"]
    by (simp add: tokenize_punct [of "CHR '',''" TComma] punct_def consToken_def)
qed

lemma setProp_new: "map_of kvs k = None \<Longrightarrow> \<not> isIndex k \<Longrightarrow> setProp k v kvs = kvs @ [(k, v)]"
  by (simp add: setProp_def)

lemma startValue_simple: "simpleValue v \<Longrightarrow> startValue (valueToken v) fs = complete v fs"
  by (cases v) auto

lemma run_members:
  assumes "kvs \<noteq> []" "list_all simpleMember kvs" "distinct (map fst (acc @ kvs))"
    and "e = Key \<or> e = KeyOrClose"
  shows "run (memberTokens kvs @ [TRBrace]) e [InObj acc] = Some (Done (JObj (acc @ kvs)), [])"
  using assms
proof (induction kvs arbitrary: acc e rule: memberTokens.induct)
  case 1
  then show ?case by simp
next
  case (2 k v)
  then have "map_of acc k = None" "\<not> isIndex k" "simpleValue v"
    by (auto simp: simpleMember_def map_of_eq_None_iff)
  then show ?case using 2(4)
    by (auto simp: startValue_simple setProp_new)
next
  case (3 k v kv kvs)
  then have *: "map_of acc k = None" "\<not> isIndex k" "simpleValue v"
    by (auto simp: simpleMember_def map_of_eq_None_iff)
  have "run (memberTokens (kv # kvs) @ [TRBrace]) Key [InObj (acc @ [(k, v)])]
        = Some (Done (JObj ((acc @ [(k, v)]) @ kv # kvs)), [])"
    using 3 by (intro "3.IH") auto
  then show ?case using * 3(5)
    by (auto simp: startValue_simple setProp_new)
qed

lemma parse_stringify_flat:
  assumes "list_all simpleMember kvs" "distinct (map fst kvs)"
  shows "JSON_parse (JSON_stringify (JObj kvs)) = Inr (JObj kvs)"
proof (cases "kvs = []")
  case True
  then show ?thesis
    by (simp add: JSON_parse_def tokenize.simps punct_def isWhite_def consToken_def)
next
  case False
  have "tokenize (JSON_stringify (JObj kvs)) = Some (TLBrace # memberTokens kvs @ [TRBrace])"
    using tokenize_members [OF False assms(1)]
    by (simp add: tokenize_punct [of "CHR ''{''" TLBrace] punct_def consToken_def)
  moreover have "run (TLBrace # memberTokens kvs @ [TRBrace]) Value [] = Some (Done (JObj kvs), [])"
    using run_members [OF False assms(1), of "[]" KeyOrClose] assms(2) by simp
  ultimately show ?thesis by (simp add: JSON_parse_def)
qed

lemma plain_textSizeStr: "plain (textSizeStr t)"
  by (cases t) (simp_all add: plain_def plainChar_def dquote_def backslash_def)

lemma plain_spacingStr: "plain (spacingStr sp)"
  by (cases sp) (simp_all add: plain_def plainChar_def dquote_def backslash_def)

lemma plain_fontStr: "plain (fontStr f)"
  by (cases f) (simp_all add: plain_def plainChar_def dquote_def backslash_def)

lemmas plain_strs = plain_textSizeStr plain_spacingStr plain_fontStr

lemma parse_stringify_settings: "JSON_parse (JSON_stringify (toJS S)) = Inr (toJS S)"
  unfolding toJS_def
  by (rule parse_stringify_flat)
    (simp_all add: simpleMember_def plain_strs, simp_all add: plain_def plainChar_def dquote_def backslash_def isIndex_def isDigit_def)

subsection \<open>Objects and the storage\<close>

lemma map_of_replaceProp:
  "map_of kvs k \<noteq> None \<Longrightarrow>
   map_of (replaceProp k v kvs) k' = (if k' = k then Some v else map_of kvs k')"
  by (induction kvs) auto

lemma map_of_insertIndex:
  "map_of kvs k = None \<Longrightarrow>
   map_of (insertIndex k v kvs) k' = (if k' = k then Some v else map_of kvs k')"
  by (induction kvs) (auto split: if_splits)

lemma map_of_setProp: "map_of (setProp k v kvs) k' = (if k' = k then Some v else map_of kvs k')"
  unfolding setProp_def
  by (auto simp: map_of_replaceProp map_of_insertIndex map_add_def split: option.splits)

lemma getItem_save: "getItem (save s st) storageKey = Some (JSON_stringify s)"
  by (simp add: getItem_def save_def setItem_def)

lemma stringify_settings_nonempty: "JSON_stringify (toJS S) \<noteq> []"
  by (simp add: toJS_def)

lemma loadEffect_saved: "loadEffect (save (toJS S) st) = Inr (Some (toJS S))"
  by (simp add: loadEffect_def getItem_save stringify_settings_nonempty
      parse_stringify_settings)

lemma parse_open_brace: "JSON_parse ''{'' = Inl SyntaxError"
  by (simp add: JSON_parse_def tokenize.simps isWhite_def punct_def consToken_def)

subsection \<open>Loading\<close>

text \<open>
  C1, as the code has it. \<open>load\<close> gives the default settings when the storage has nothing
  under the key, and when it has the empty string there. When it has a text that
  \<^verbatim>\<open>JSON.parse\<close> refuses, the \<^verbatim>\<open>SyntaxError\<close> is the result of \<open>load\<close>: the effect has no
  handler, and the caller gets the error and not the defaults.
\<close>

theorem load_fallback:
  "(getItem st storageKey = None \<or> getItem st storageKey = Some [] \<longrightarrow>
      load st = Inr (toJS defaultSettings))
   \<and> (\<forall>s e. getItem st storageKey = Some s \<and> s \<noteq> [] \<and> JSON_parse s = Inl e \<longrightarrow>
      load st = Inl e)"
  by (auto simp: load_def loadEffect_def)

theorem load_fallback_witness:
  "load \<lparr>items = Map.empty, setItemCalls = []\<rparr> = Inr (toJS defaultSettings)
   \<and> load \<lparr>items = [storageKey \<mapsto> ''{''], setItemCalls = []\<rparr> = Inl SyntaxError"
proof -
  let ?a = "\<lparr>items = Map.empty, setItemCalls = []\<rparr>"
  let ?b = "\<lparr>items = [storageKey \<mapsto> ''{''], setItemCalls = []\<rparr>"
  have "getItem ?a storageKey = None"
    by (simp add: getItem_def)
  moreover have "getItem ?b storageKey = Some ''{'' \<and> ''{'' \<noteq> []
      \<and> JSON_parse ''{'' = Inl SyntaxError"
    using parse_open_brace by (simp add: getItem_def)
  ultimately show ?thesis
    using load_fallback [of ?a] load_fallback [of ?b] by blast
qed

text \<open>
  C1 as stated fails: the storage holds the text \<^verbatim>\<open>{\<close>, which \<^verbatim>\<open>JSON.parse\<close> refuses, and
  \<open>load\<close> raises the error.
\<close>

theorem load_corrupt_counterexample:
  "JSON_parse ''{'' = Inl SyntaxError
   \<and> load \<lparr>items = [storageKey \<mapsto> ''{''], setItemCalls = []\<rparr> = Inl SyntaxError"
  by (simp add: parse_open_brace load_def loadEffect_def getItem_def)

text \<open>
  C3. Saving a settings record and loading gives the record back, whatever the storage
  held before.
\<close>

theorem save_load_roundtrip: "load (save (toJS S) st) = Inr (toJS S)"
  by (simp add: load_def loadEffect_saved)

subsection \<open>Saving on every change\<close>

lemma dispatch_result:
  "dispatch ev w = Inr w' \<Longrightarrow>
   update ev (settings w) = Inr (settings w')
   \<and> localStorage w' = setItem storageKey (JSON_stringify (settings w')) (localStorage w)"
  by (auto simp: dispatch_def saveEffect_def save_def split: sum.splits)

lemma update_total: "s \<noteq> JNull \<Longrightarrow> \<exists>s'. update ev s = Inr s'"
  by (cases ev; cases s) (simp_all add: togglePageStructure_def)

lemma dispatch_total: "settings w \<noteq> JNull \<Longrightarrow> \<exists>w'. dispatch ev w = Inr w'"
  using update_total [of "settings w" ev] by (auto simp: dispatch_def)

lemma mount_stored:
  "mount st = Inr w \<Longrightarrow> getItem (localStorage w) storageKey = Some (JSON_stringify (settings w))"
  by (auto simp: mount_def saveEffect_def getItem_save Let_def
      split: sum.splits option.splits)

lemma handleSettingChange_settings:
  "handleSettingChange ''highlightLinks'' (JBool b) (toJS S) = toJS (S\<lparr>highlightLinks := b\<rparr>)"
  "handleSettingChange ''colorShift'' (JBool b) (toJS S) = toJS (S\<lparr>colorShift := b\<rparr>)"
  "handleSettingChange ''animationsEnabled'' (JBool b) (toJS S) = toJS (S\<lparr>animationsEnabled := b\<rparr>)"
  "handleSettingChange ''highContrast'' (JBool b) (toJS S) = toJS (S\<lparr>highContrast := b\<rparr>)"
  "handleSettingChange ''focusEnabled'' (JBool b) (toJS S) = toJS (S\<lparr>focusEnabled := b\<rparr>)"
  "handleSettingChange ''cursorEnabled'' (JBool b) (toJS S) = toJS (S\<lparr>cursorEnabled := b\<rparr>)"
  "handleSettingChange ''textSize'' (JStr (textSizeStr t)) (toJS S) = toJS (S\<lparr>textSize := t\<rparr>)"
  "handleSettingChange ''spacing'' (JStr (spacingStr sp)) (toJS S) = toJS (S\<lparr>spacing := sp\<rparr>)"
  "handleSettingChange ''font'' (JStr (fontStr f)) (toJS S) = toJS (S\<lparr>font := f\<rparr>)"
  "handleSettingChange ''imagesVisible'' (JBool b) (toJS S) = toJS (S\<lparr>imagesVisible := b\<rparr>)"
  "handleSettingChange ''showPageStructure'' (JBool b) (toJS S) = toJS (S\<lparr>showPageStructure := b\<rparr>)"
  "handleSettingChange ''guideEnabled'' (JBool b) (toJS S) = toJS (S\<lparr>guideEnabled := b\<rparr>)"
  by (simp_all add: handleSettingChange_def toJS_def setProp_def)

lemma togglePageStructure_obj:
  "togglePageStructure (JObj kvs) =
   Inr (JObj (setProp ''showPageStructure''
                (JBool (\<not> truthy (map_of kvs ''showPageStructure''))) kvs))"
  by (simp add: togglePageStructure_def)

lemma togglePageStructure_settings:
  "togglePageStructure (toJS S) = Inr (toJS (S\<lparr>showPageStructure := \<not> showPageStructure S\<rparr>))"
  by (simp add: togglePageStructure_def toJS_def setProp_def)

lemma dispatch_toggle_settings:
  "dispatch TogglePageStructure \<lparr>settings = toJS S, localStorage = st\<rparr>
   = Inr (saveEffect \<lparr>settings = toJS (S\<lparr>showPageStructure := \<not> showPageStructure S\<rparr>),
                       localStorage = st\<rparr>)"
  by (simp add: dispatch_def togglePageStructure_settings)

lemma dispatch_Reset:
  "dispatch Reset w = Inr (saveEffect (w\<lparr>settings := toJS defaultSettings\<rparr>))"
  by (simp add: dispatch_def resetSettings_def)

text \<open>
  C7. In every state the component can render (the state is not \<^verbatim>\<open>null\<close>) an event gives
  a new state, and with it exactly one more call of \<^verbatim>\<open>setItem\<close>: it writes the text of the
  whole new state under the fixed key, replacing what was there and touching no other
  key. After mounting, too, the stored text is that of the state.
\<close>

theorem mutation_saves_once:
  "(settings w \<noteq> JNull \<longrightarrow> (\<exists>w'. dispatch ev w = Inr w'))
   \<and> (\<forall>w'. dispatch ev w = Inr w' \<longrightarrow>
         items (localStorage w')
           = (items (localStorage w))(storageKey \<mapsto> JSON_stringify (settings w'))
       \<and> setItemCalls (localStorage w')
           = setItemCalls (localStorage w) @ [(storageKey, JSON_stringify (settings w'))])
   \<and> (\<forall>w'. mount st = Inr w' \<longrightarrow>
         getItem (localStorage w') storageKey = Some (JSON_stringify (settings w')))"
  using dispatch_total [of w ev] dispatch_result [of ev w] mount_stored [of st]
  by (auto simp: setItem_def)

theorem mutation_saves_once_witness:
  "(\<exists>w'. dispatch (Change ''font'' (JStr ''serif''))
            \<lparr>settings = toJS defaultSettings, localStorage = emptyStorage\<rparr> = Inr w'
       \<and> settings w' = toJS (defaultSettings\<lparr>font := Serif\<rparr>)
       \<and> items (localStorage w') storageKey
           = Some (JSON_stringify (toJS (defaultSettings\<lparr>font := Serif\<rparr>)))
       \<and> setItemCalls (localStorage w')
           = [(storageKey, JSON_stringify (toJS (defaultSettings\<lparr>font := Serif\<rparr>)))])
   \<and> (\<exists>w'. mount emptyStorage = Inr w'
       \<and> getItem (localStorage w') storageKey = Some (JSON_stringify (settings w')))"
proof -
  let ?w = "\<lparr>settings = toJS defaultSettings, localStorage = emptyStorage\<rparr>"
  let ?ev = "Change ''font'' (JStr ''serif'')"
  note inst = mutation_saves_once [of ?w ?ev emptyStorage]
  have "settings ?w \<noteq> JNull"
    by (simp add: toJS_def)
  then obtain w' where d: "dispatch ?ev ?w = Inr w'"
    using inst by blast
  then have s: "settings w' = toJS (defaultSettings\<lparr>font := Serif\<rparr>)"
    using handleSettingChange_settings(9) [of Serif defaultSettings]
    by (auto simp: dispatch_def saveEffect_def split: sum.splits)
  have "items (localStorage w')
          = (items (localStorage ?w))(storageKey \<mapsto> JSON_stringify (settings w'))
      \<and> setItemCalls (localStorage w')
          = setItemCalls (localStorage ?w) @ [(storageKey, JSON_stringify (settings w'))]"
    using d inst by blast
  then have first: "\<exists>w'. dispatch ?ev ?w = Inr w'
       \<and> settings w' = toJS (defaultSettings\<lparr>font := Serif\<rparr>)
       \<and> items (localStorage w') storageKey
           = Some (JSON_stringify (toJS (defaultSettings\<lparr>font := Serif\<rparr>)))
       \<and> setItemCalls (localStorage w')
           = [(storageKey, JSON_stringify (toJS (defaultSettings\<lparr>font := Serif\<rparr>)))]"
    using d s by (simp add: emptyStorage_def)
  have "\<exists>w'. mount emptyStorage = Inr w'"
    by (simp add: mount_def loadEffect_def getItem_def emptyStorage_def)
  then have "\<exists>w'. mount emptyStorage = Inr w'
       \<and> getItem (localStorage w') storageKey = Some (JSON_stringify (settings w'))"
    using inst by blast
  with first show ?thesis by blast
qed

subsection \<open>Reset\<close>

text \<open>
  C4. After any sequence of events from any state, reset gives the state in which every
  field has its default (\<open>animationsEnabled\<close> and \<open>imagesVisible\<close> true, the other
  booleans false, \<open>1em\<close>, \<open>normal\<close>, \<open>sans-serif\<close>), and the storage holds the text of it.
\<close>

theorem reset_restores_defaults:
  "dispatchAll evs w = Inr w1 \<Longrightarrow>
   \<exists>w2. dispatch Reset w1 = Inr w2
     \<and> settings w2 = toJS defaultSettings
     \<and> getItem (localStorage w2) storageKey = Some (JSON_stringify (toJS defaultSettings))
     \<and> toJS defaultSettings =
         JObj [(''highlightLinks'', JBool False), (''colorShift'', JBool False),
               (''animationsEnabled'', JBool True), (''highContrast'', JBool False),
               (''focusEnabled'', JBool False), (''cursorEnabled'', JBool False),
               (''textSize'', JStr ''1em''), (''spacing'', JStr ''normal''),
               (''font'', JStr ''sans-serif''), (''imagesVisible'', JBool True),
               (''showPageStructure'', JBool False), (''guideEnabled'', JBool False)]"
  by (simp add: dispatch_Reset saveEffect_def getItem_save)
    (simp add: toJS_def defaultSettings_def)

theorem reset_restores_defaults_witness:
  "dispatchAll [TogglePageStructure]
      \<lparr>settings = toJS defaultSettings, localStorage = emptyStorage\<rparr>
    = Inr (saveEffect \<lparr>settings = toJS (defaultSettings\<lparr>showPageStructure := True\<rparr>),
                        localStorage = emptyStorage\<rparr>)
   \<and> (\<exists>w2. dispatch Reset
              (saveEffect \<lparr>settings = toJS (defaultSettings\<lparr>showPageStructure := True\<rparr>),
                           localStorage = emptyStorage\<rparr>) = Inr w2
        \<and> settings w2 = toJS defaultSettings
        \<and> getItem (localStorage w2) storageKey
            = Some (JSON_stringify (toJS defaultSettings)))"
proof -
  let ?w = "\<lparr>settings = toJS defaultSettings, localStorage = emptyStorage\<rparr>"
  let ?w1 = "saveEffect \<lparr>settings = toJS (defaultSettings\<lparr>showPageStructure := True\<rparr>),
                          localStorage = emptyStorage\<rparr>"
  have run: "dispatchAll [TogglePageStructure] ?w = Inr ?w1"
    using dispatch_toggle_settings [of defaultSettings emptyStorage]
    by (simp add: defaultSettings_def)
  from reset_restores_defaults [OF run] run show ?thesis
    by blast
qed

subsection \<open>One field at a time\<close>

lemma getProp_handleSettingChange:
  "getProp (handleSettingChange k v prev) k'
   = Inr (if k' = k then Some v else map_of (spread prev) k')"
  by (simp add: handleSettingChange_def map_of_setProp)

text \<open>
  C9. On any object, \<open>handleSettingChange k v\<close> gives an object whose property \<open>k\<close> is \<open>v\<close>
  and whose other properties are those of the object before; on a settings record it is
  the update of that one field, for each of the twelve. \<open>togglePageStructure\<close> negates
  \<open>showPageStructure\<close> and keeps every other property.
\<close>

theorem single_field_update_frame:
  "getProp (handleSettingChange k v (JObj kvs)) k = Inr (Some v)
   \<and> (\<forall>k'. k' \<noteq> k \<longrightarrow>
         getProp (handleSettingChange k v (JObj kvs)) k' = getProp (JObj kvs) k')
   \<and> togglePageStructure (toJS S) = Inr (toJS (S\<lparr>showPageStructure := \<not> showPageStructure S\<rparr>))
   \<and> (\<exists>s'. togglePageStructure (JObj kvs) = Inr s'
        \<and> getProp s' ''showPageStructure''
            = Inr (Some (JBool (\<not> truthy (map_of kvs ''showPageStructure''))))
        \<and> (\<forall>k'. k' \<noteq> ''showPageStructure'' \<longrightarrow> getProp s' k' = getProp (JObj kvs) k'))
   \<and> handleSettingChange ''highlightLinks'' (JBool b) (toJS S) = toJS (S\<lparr>highlightLinks := b\<rparr>)
   \<and> handleSettingChange ''colorShift'' (JBool b) (toJS S) = toJS (S\<lparr>colorShift := b\<rparr>)
   \<and> handleSettingChange ''animationsEnabled'' (JBool b) (toJS S)
       = toJS (S\<lparr>animationsEnabled := b\<rparr>)
   \<and> handleSettingChange ''highContrast'' (JBool b) (toJS S) = toJS (S\<lparr>highContrast := b\<rparr>)
   \<and> handleSettingChange ''focusEnabled'' (JBool b) (toJS S) = toJS (S\<lparr>focusEnabled := b\<rparr>)
   \<and> handleSettingChange ''cursorEnabled'' (JBool b) (toJS S) = toJS (S\<lparr>cursorEnabled := b\<rparr>)
   \<and> handleSettingChange ''textSize'' (JStr (textSizeStr t)) (toJS S) = toJS (S\<lparr>textSize := t\<rparr>)
   \<and> handleSettingChange ''spacing'' (JStr (spacingStr sp)) (toJS S) = toJS (S\<lparr>spacing := sp\<rparr>)
   \<and> handleSettingChange ''font'' (JStr (fontStr f)) (toJS S) = toJS (S\<lparr>font := f\<rparr>)
   \<and> handleSettingChange ''imagesVisible'' (JBool b) (toJS S) = toJS (S\<lparr>imagesVisible := b\<rparr>)
   \<and> handleSettingChange ''showPageStructure'' (JBool b) (toJS S)
       = toJS (S\<lparr>showPageStructure := b\<rparr>)
   \<and> handleSettingChange ''guideEnabled'' (JBool b) (toJS S) = toJS (S\<lparr>guideEnabled := b\<rparr>)"
proof -
  have set: "getProp (handleSettingChange k v (JObj kvs)) k = Inr (Some v)"
    by (simp add: getProp_handleSettingChange)
  have frame: "\<forall>k'. k' \<noteq> k \<longrightarrow>
      getProp (handleSettingChange k v (JObj kvs)) k' = getProp (JObj kvs) k'"
    by (simp add: getProp_handleSettingChange)
  have toggle: "\<exists>s'. togglePageStructure (JObj kvs) = Inr s'
        \<and> getProp s' ''showPageStructure''
            = Inr (Some (JBool (\<not> truthy (map_of kvs ''showPageStructure''))))
        \<and> (\<forall>k'. k' \<noteq> ''showPageStructure'' \<longrightarrow> getProp s' k' = getProp (JObj kvs) k')"
    by (simp add: togglePageStructure_obj map_of_setProp)
  show ?thesis
    by (intro conjI set frame toggle togglePageStructure_settings
        handleSettingChange_settings)
qed

theorem single_field_update_frame_witness:
  "getProp (handleSettingChange ''font'' (JStr ''serif'')
             (JObj [(''font'', JStr ''sans-serif''), (''guideEnabled'', JBool True)])) ''font''
     = Inr (Some (JStr ''serif''))
   \<and> ''guideEnabled'' \<noteq> ''font''
   \<and> getProp (handleSettingChange ''font'' (JStr ''serif'')
             (JObj [(''font'', JStr ''sans-serif''), (''guideEnabled'', JBool True)]))
         ''guideEnabled''
     = Inr (Some (JBool True))
   \<and> togglePageStructure (toJS defaultSettings)
     = Inr (toJS (defaultSettings\<lparr>showPageStructure := True\<rparr>))"
proof -
  let ?kvs = "[(''font'', JStr ''sans-serif''), (''guideEnabled'', JBool True)]"
  note inst = single_field_update_frame
    [of "''font''" "JStr ''serif''" ?kvs defaultSettings False Em1 SpacingNormal SansSerif]
  have ne: "''guideEnabled'' \<noteq> ''font''"
    by simp
  have "getProp (handleSettingChange ''font'' (JStr ''serif'') (JObj ?kvs)) ''font''
        = Inr (Some (JStr ''serif''))"
    by (rule inst [THEN conjunct1])
  moreover have "getProp (handleSettingChange ''font'' (JStr ''serif'') (JObj ?kvs)) ''guideEnabled''
        = getProp (JObj ?kvs) ''guideEnabled''"
    by (rule inst [THEN conjunct2, THEN conjunct1, rule_format, OF ne])
  moreover have "togglePageStructure (toJS defaultSettings)
        = Inr (toJS (defaultSettings\<lparr>showPageStructure := \<not> showPageStructure defaultSettings\<rparr>))"
    by (rule inst [THEN conjunct2, THEN conjunct2, THEN conjunct1])
  ultimately show ?thesis
    by (simp add: defaultSettings_def)
qed

subsection \<open>The state stays a settings record\<close>


















subsection \<open>The document under the effect\<close>

text \<open>The loops keep the ids, so they keep what \<open>findById\<close>, \<open>removeFirst\<close> and \<open>countId\<close> see.\<close>

lemma findById_forEach:
  "findById i (map (forEachSelected sel f) ns) = map_option (forEachSelected sel f) (findById i ns)"
  by (induction i ns rule: findById.induct) (auto split: option.splits)

lemma findById_forEach_None:
  "findById i (map (forEachSelected sel f) ns) = None \<longleftrightarrow> findById i ns = None"
  by (simp add: findById_forEach)

lemma removeFirst_forEach:
  "removeFirst i (map (forEachSelected sel f) ns) = map (forEachSelected sel f) (removeFirst i ns)"
  by (induction i ns rule: removeFirst.induct) (auto simp: findById_forEach_None)

lemma countId_forEach: "countId i (map (forEachSelected sel f) ns) = countId i ns"
  by (induction i ns rule: countId.induct) auto

lemma findById_None_iff: "findById i ns = None \<longleftrightarrow> countId i ns = 0"
  by (induction i ns rule: findById.induct) (auto split: option.splits)

lemma countId_removeFirst: "countId i ns \<le> 1 \<Longrightarrow> countId i (removeFirst i ns) = 0"
  by (induction i ns rule: removeFirst.induct) (auto simp: findById_None_iff split: if_splits)

lemma countId_append: "countId i (xs @ ys) = countId i xs + countId i ys"
  by (induction i xs rule: countId.induct) auto

lemma selectAll_append: "selectAll sel (xs @ ys) = selectAll sel xs @ selectAll sel ys"
  by (induction sel xs rule: selectAll.induct) auto

lemma styleNode_Text: "styleNode s (Text x) = Text x"
  by (simp add: styleNode_def)

lemma styleNode_Element:
  "styleNode s (Element t i h st cs) =
   Element t i h
     ((if t = ''img'' then (\<lambda>st. st\<lparr>display := (if imagesVisible s then ''block'' else ''none'')\<rparr>) else id)
       ((if t = ''a'' then (\<lambda>st. st\<lparr>backgroundColor := (if highlightLinks s then ''#FFFF00'' else [])\<rparr>) else id) st
          \<lparr>outline := (if focusEnabled s then ''2px solid #0000FF'' else [])\<rparr>))
     (map (styleNode s) cs)"
  by (simp add: styleNode_def)

lemma styleNode_idem: "styleNode s (styleNode s n) = styleNode s n"
  by (induction n) (simp_all add: styleNode_Text styleNode_Element)

lemma map_three: "map (\<lambda>n. F (G (H n))) ns = map F (map G (map H ns))"
  by simp

lemma findById_styleNode_None: "findById i (map (styleNode s) ns) = None \<longleftrightarrow> findById i ns = None"
  unfolding styleNode_def map_three
  by (simp only: findById_forEach_None)

lemma removeFirst_styleNode: "removeFirst i (map (styleNode s) ns) = map (styleNode s) (removeFirst i ns)"
  unfolding styleNode_def map_three
  by (simp only: removeFirst_forEach)

lemma countId_styleNode: "countId i (map (styleNode s) ns) = countId i ns"
  unfolding styleNode_def map_three
  by (simp only: countId_forEach)

text \<open>Writing to the first child that is a body.\<close>

lemma updateFirst_None_iff: "updateFirst p g ns = None \<longleftrightarrow> firstChild p ns = None"
  by (induction p g ns rule: updateFirst.induct) auto

lemma withStyle_styleNode:
  "withStyle (cursorStyle c) (styleNode s n) = styleNode s (withStyle (cursorStyle c) n)"
  by (cases n) (simp_all add: styleNode_Text styleNode_Element cursorStyle_def)

lemma appendChild_styleNode:
  "styleNode s (appendChild m n) = appendChild (styleNode s m) (styleNode s n)"
  by (cases n) (simp_all add: styleNode_Text styleNode_Element)

lemma tag_styleNode: "styleNode s n = Element t e h st cs \<Longrightarrow> \<exists>st' cs'. n = Element t e h st' cs'"
  by (cases n) (simp_all add: styleNode_Text styleNode_Element)

lemma styleNode_shape:
  "\<exists>st' cs'. styleNode s (Element t e h st cs) = Element t e h st' cs'"
  by (simp add: styleNode_Element)

lemma updateFirst_map:
  assumes "\<And>n. g (F n) = F (g' n)" "\<And>x. F (Text x) = Text x"
    and "\<And>t e h st cs. \<exists>st' cs'. F (Element t e h st cs) = Element t e h st' cs'"
  shows "updateFirst p g (map F ns) = map_option (map F) (updateFirst p g' ns)"
proof (induction ns)
  case Nil
  then show ?case by simp
next
  case (Cons n ns)
  show ?case
  proof (cases n)
    case (Text x)
    then show ?thesis
      using Cons by (simp add: assms(2) option.map_comp comp_def)
  next
    case (Element t e h st cs)
    obtain st' cs' where sh: "F (Element t e h st cs) = Element t e h st' cs'"
      using assms(3) by blast
    show ?thesis
    proof (cases "p t")
      case True
      have "updateFirst p g (map F (n # ns)) = Some (g (F (Element t e h st cs)) # map F ns)"
        using True Element by (simp add: sh)
      then show ?thesis
        using True Element by (simp add: assms(1))
    next
      case False
      have "updateFirst p g (map F (n # ns))
            = map_option ((#) (F (Element t e h st cs))) (updateFirst p g (map F ns))"
        using False Element by (simp add: sh)
      then show ?thesis
        using False Element Cons by (simp add: option.map_comp comp_def)
    qed
  qed
qed

lemma withStyle_forEach:
  assumes "\<And>st. k (f st) = f (k st)"
  shows "withStyle k (forEachSelected sel f n) = forEachSelected sel f (withStyle k n)"
  by (cases n) (simp_all add: assms)

lemma updateFirst_forEach:
  assumes "\<And>st. k (f st) = f (k st)"
  shows "updateFirst p (withStyle k) (map (forEachSelected sel f) ns)
         = map_option (map (forEachSelected sel f)) (updateFirst p (withStyle k) ns)"
  using withStyle_forEach [of k f, OF assms] by (intro updateFirst_map) simp_all

lemma updateFirst_styleNode:
  "updateFirst p (withStyle (cursorStyle c)) (map (styleNode s) ns)
   = map_option (map (styleNode s)) (updateFirst p (withStyle (cursorStyle c)) ns)"
  by (rule updateFirst_map) (simp_all add: withStyle_styleNode styleNode_Text styleNode_Element)

lemma updateFirst_appendChild_styleNode:
  "updateFirst p (appendChild (styleNode s m)) (map (styleNode s) ns)
   = map_option (map (styleNode s)) (updateFirst p (appendChild m) ns)"
  by (rule updateFirst_map) (simp_all add: appendChild_styleNode styleNode_Text styleNode_Element)

lemma updateFirst_idem:
  assumes "\<And>n. g (g n) = g n"
    and "\<And>t e h st cs. \<exists>st' cs'. g (Element t e h st cs) = Element t e h st' cs'"
  shows "updateFirst p g ns = Some ns' \<Longrightarrow> updateFirst p g ns' = Some ns'"
proof (induction ns arbitrary: ns')
  case Nil
  then show ?case by simp
next
  case (Cons n ns)
  show ?case
  proof (cases n)
    case (Text x)
    then show ?thesis
      using Cons by auto
  next
    case (Element t e h st cs)
    show ?thesis
    proof (cases "p t")
      case True
      then have ns': "ns' = g n # ns"
        using Cons.prems Element by simp
      obtain st' cs' where gn: "g n = Element t e h st' cs'"
        using assms(2) [of t e h st cs] Element by auto
      then show ?thesis
        using True ns' assms(1) [of n] by simp
    next
      case False
      then show ?thesis
        using Cons Element by auto
    qed
  qed
qed

lemma updateFirst_two:
  assumes "\<And>n. g (g' n) = g' (g n)"
    and "\<And>t e h st cs. \<exists>st' cs'. g (Element t e h st cs) = Element t e h st' cs'"
    and "\<And>t e h st cs. \<exists>st' cs'. g' (Element t e h st cs) = Element t e h st' cs'"
  shows "updateFirst p g ns = Some a \<Longrightarrow> updateFirst p g' ns = Some b \<Longrightarrow>
         updateFirst p g b = updateFirst p g' a"
proof (induction ns arbitrary: a b)
  case Nil
  then show ?case by simp
next
  case (Cons n ns)
  show ?case
  proof (cases n)
    case (Text x)
    then show ?thesis
      using Cons by auto
  next
    case (Element t e h st cs)
    show ?thesis
    proof (cases "p t")
      case True
      then have ab: "a = g n # ns" "b = g' n # ns"
        using Cons.prems Element by simp_all
      obtain st1 cs1 where gn: "g n = Element t e h st1 cs1"
        using assms(2) [of t e h st cs] Element by auto
      obtain st2 cs2 where gn': "g' n = Element t e h st2 cs2"
        using assms(3) [of t e h st cs] Element by auto
      show ?thesis
        using True ab gn gn' assms(1) [of n] by simp
    next
      case False
      then show ?thesis
        using Cons Element by auto
    qed
  qed
qed

lemma withStyle_shape: "\<exists>st' cs'. withStyle f (Element t e h st cs) = Element t e h st' cs'"
  by simp

lemma appendChild_shape: "\<exists>st' cs'. appendChild m (Element t e h st cs) = Element t e h st' cs'"
  by simp

lemma withStyle_appendChild: "withStyle f (appendChild m n) = appendChild m (withStyle f n)"
  by (cases n) simp_all

lemma withStyle_cursor_idem: "withStyle (cursorStyle s) (withStyle (cursorStyle s) n) = withStyle (cursorStyle s) n"
  by (cases n) (simp_all add: cursorStyle_def)

text \<open>What a write to the body does to the ids and to the body itself.\<close>

lemma countId_updateFirst_withStyle:
  "updateFirst p (withStyle f) ns = Some ns' \<Longrightarrow> countId i ns' = countId i ns"
  by (induction p "withStyle f" ns arbitrary: ns' rule: updateFirst.induct) (auto split: if_splits)

lemma countId_updateFirst_appendChild:
  "updateFirst p (appendChild m) ns = Some ns' \<Longrightarrow> countId i ns' = countId i ns + countId i [m]"
  by (induction p "appendChild m" ns arbitrary: ns' rule: updateFirst.induct)
    (auto simp: countId_append split: if_splits)

lemma firstChild_updateFirst:
  assumes "\<And>t e h st cs. \<exists>st' cs'. g (Element t e h st cs) = Element t e h st' cs'"
  shows "updateFirst p g ns = Some ns' \<Longrightarrow>
         map_option elemId (firstChild p ns') = map_option elemId (firstChild p ns)"
proof (induction ns arbitrary: ns')
  case Nil
  then show ?case by simp
next
  case (Cons n ns)
  show ?case
  proof (cases n)
    case (Text x)
    then show ?thesis using Cons by auto
  next
    case (Element t e h st cs)
    obtain st' cs' where "g (Element t e h st cs) = Element t e h st' cs'"
      using assms by blast
    then show ?thesis
      using Cons Element by (auto split: if_splits)
  qed
qed

lemma firstChild_styleNode:
  "map_option elemId (firstChild p (map (styleNode s) ns)) = map_option elemId (firstChild p ns)"
proof (induction ns)
  case Nil
  then show ?case by simp
next
  case (Cons n ns)
  then show ?case
    by (cases n) (simp_all add: styleNode_Text styleNode_Element)
qed

lemma updateFirst_removeFirst:
  assumes "map_option elemId (firstChild p ns) \<noteq> Some i"
  shows "updateFirst p (withStyle f) (removeFirst i ns)
         = map_option (removeFirst i) (updateFirst p (withStyle f) ns)"
  using assms
proof (induction i ns rule: removeFirst.induct)
  case (1 i)
  then show ?case by simp
next
  case (2 i x ns)
  then show ?case by (simp add: option.map_comp comp_def)
next
  case (3 i t e h st cs ns)
  then show ?case
    by (auto simp: option.map_comp comp_def option.map_id id_def [symmetric] split: if_splits)
qed

text \<open>The style phase, in one step.\<close>

lemma applyStyles_None: "applyStyles s None = Inl TypeError"
  by (simp add: applyStyles_def andThen_def forEachInDocument_def onDocumentElement_def)

lemma applyStyles_Text: "applyStyles s (Some (Text x)) = Inl TypeError"
  by (simp add: applyStyles_def andThen_def forEachInDocument_def onDocumentElement_def)

lemma applyStyles_Element:
  "applyStyles s (Some (Element t e h st cs)) =
     (if t = ''html'' then
        (case updateFirst isBodyTag (withStyle (cursorStyle s)) (map (styleNode s) cs) of
           None \<Rightarrow> Inl TypeError
         | Some cs' \<Rightarrow> Inr (Some (Element t e h (rootStyle s st) cs')))
      else Inl TypeError)"
proof -
  let ?P1 = "forEachSelected (\<lambda>t. t = ''a'')
             (\<lambda>st. st\<lparr>backgroundColor := (if highlightLinks s then ''#FFFF00'' else [])\<rparr>)"
  let ?P2 = "forEachSelected (\<lambda>t. True)
          (\<lambda>st. st\<lparr>outline := (if focusEnabled s then ''2px solid #0000FF'' else [])\<rparr>)"
  let ?P3 = "forEachSelected (\<lambda>t. t = ''img'')
       (\<lambda>st. st\<lparr>display := (if imagesVisible s then ''block'' else ''none'')\<rparr>)"
  let ?U = "updateFirst isBodyTag (withStyle (cursorStyle s))"
  have m: "map (styleNode s) cs = map ?P3 (map ?P2 (map ?P1 cs))"
    by (simp add: styleNode_def)
  have u: "?U (map (styleNode s) cs) = map_option (map ?P3) (?U (map ?P2 (map ?P1 cs)))"
    unfolding m by (rule updateFirst_forEach) (simp add: cursorStyle_def)
  show ?thesis
    unfolding u
    by (cases "?U (map ?P2 (map ?P1 cs))")
      (simp_all add: applyStyles_def andThen_def forEachInDocument_def onDocumentElement_def
        onBody_def rootStyle_def cursorStyle_def [abs_def])
qed

lemma styled_iff:
  "styled s d \<longleftrightarrow>
     (\<exists>e h st cs. d = Some (Element ''html'' e h st cs) \<and> rootStyle s st = st
        \<and> map (styleNode s) cs = cs
        \<and> updateFirst isBodyTag (withStyle (cursorStyle s)) cs = Some cs)"
  by (auto simp: styled_def split: option.splits node.splits)

lemma rootStyle_idem: "rootStyle s (rootStyle s st) = rootStyle s st"
  by (simp add: rootStyle_def)

lemma body_Some_iff:
  "body d \<noteq> None \<longleftrightarrow>
     (\<exists>e h st cs. d = Some (Element ''html'' e h st cs) \<and> firstChild isBodyTag cs \<noteq> None)"
proof (cases d)
  case None
  then show ?thesis by (simp add: body_def)
next
  case (Some n)
  then show ?thesis by (cases n) (auto simp: body_def)
qed

lemma applyStyles_Inr:
  assumes "applyStyles s d = Inr d1"
  obtains e h st cs cs' where "d = Some (Element ''html'' e h st cs)"
    "updateFirst isBodyTag (withStyle (cursorStyle s)) (map (styleNode s) cs) = Some cs'"
    "d1 = Some (Element ''html'' e h (rootStyle s st) cs')"
proof (cases d)
  case None
  then show ?thesis using assms by (simp add: applyStyles_None)
next
  case (Some n)
  show ?thesis
  proof (cases n)
    case (Text x)
    then show ?thesis using assms Some by (simp add: applyStyles_Text)
  next
    case (Element t e h st cs)
    then show ?thesis
      using assms Some that [of e h st cs]
      by (auto simp: applyStyles_Element split: if_splits option.splits)
  qed
qed

lemma applyStyles_total:
  assumes "body d \<noteq> None"
  shows "\<exists>d1. applyStyles s d = Inr d1"
proof -
  from assms obtain e h st cs where d: "d = Some (Element ''html'' e h st cs)"
    and f: "firstChild isBodyTag cs \<noteq> None"
    unfolding body_Some_iff by blast
  from f obtain c0 where "updateFirst isBodyTag (withStyle (cursorStyle s)) cs = Some c0"
    using updateFirst_None_iff [of isBodyTag "withStyle (cursorStyle s)" cs] by auto
  then show ?thesis
    by (simp add: d applyStyles_Element updateFirst_styleNode)
qed

lemma applyStyles_needs_body: "applyStyles s d = Inr d1 \<Longrightarrow> body d \<noteq> None"
proof (erule applyStyles_Inr)
  fix e h st cs cs'
  assume d: "d = Some (Element ''html'' e h st cs)"
    and u: "updateFirst isBodyTag (withStyle (cursorStyle s)) (map (styleNode s) cs) = Some cs'"
  from u have "updateFirst isBodyTag (withStyle (cursorStyle s)) cs \<noteq> None"
    by (auto simp: updateFirst_styleNode)
  then show "body d \<noteq> None"
    using d by (simp add: body_def updateFirst_None_iff)
qed

lemma applyStyles_styled:
  assumes "applyStyles s d = Inr d1"
  shows "styled s d1"
proof (rule applyStyles_Inr [OF assms])
  fix e h st cs cs'
  assume d: "d = Some (Element ''html'' e h st cs)"
    and u: "updateFirst isBodyTag (withStyle (cursorStyle s)) (map (styleNode s) cs) = Some cs'"
    and d1: "d1 = Some (Element ''html'' e h (rootStyle s st) cs')"
  from u obtain c0 where c0: "updateFirst isBodyTag (withStyle (cursorStyle s)) cs = Some c0"
    and cs': "cs' = map (styleNode s) c0"
    by (auto simp: updateFirst_styleNode)
  have m: "map (styleNode s) cs' = cs'"
    by (simp add: cs' styleNode_idem)
  have "updateFirst isBodyTag (withStyle (cursorStyle s)) cs' = Some cs'"
    using u by (rule updateFirst_idem [rotated 2]) (simp_all add: withStyle_cursor_idem)
  then show "styled s d1"
    unfolding styled_iff d1 using m by (simp add: rootStyle_idem)
qed

lemma styled_applyStyles: "styled s d \<Longrightarrow> applyStyles s d = Inr d"
  by (auto simp: styled_iff applyStyles_Element)

lemma applyStyles_idem: "applyStyles s d = Inr d1 \<Longrightarrow> applyStyles s d1 = Inr d1"
  by (rule styled_applyStyles) (rule applyStyles_styled)

lemma guideCount_applyStyles: "applyStyles s d = Inr d1 \<Longrightarrow> guideCount d1 = guideCount d"
  by (erule applyStyles_Inr)
    (auto simp: guideCount_def rootNodes_def countId_updateFirst_withStyle countId_styleNode)

lemma ids_applyStyles:
  assumes "applyStyles s d = Inr d1"
  shows "map_option elemId (documentElement d1) = map_option elemId (documentElement d)"
    and "map_option elemId (body d1) = map_option elemId (body d)"
proof -
  show "map_option elemId (documentElement d1) = map_option elemId (documentElement d)"
    by (rule applyStyles_Inr [OF assms]) (simp add: documentElement_def)
  show "map_option elemId (body d1) = map_option elemId (body d)"
  proof (rule applyStyles_Inr [OF assms])
    fix e h st cs cs'
    assume d: "d = Some (Element ''html'' e h st cs)"
      and u: "updateFirst isBodyTag (withStyle (cursorStyle s)) (map (styleNode s) cs) = Some cs'"
      and d1: "d1 = Some (Element ''html'' e h (rootStyle s st) cs')"
    have "map_option elemId (firstChild isBodyTag cs')
          = map_option elemId (firstChild isBodyTag (map (styleNode s) cs))"
      using u by (rule firstChild_updateFirst [rotated]) simp
    then show ?thesis
      by (simp add: d d1 body_def firstChild_styleNode)
  qed
qed

lemma getElementById_None_iff: "getElementById guideId d = None \<longleftrightarrow> guideCount d = 0"
  by (simp add: getElementById_def guideCount_def findById_None_iff)

lemma rootNodes_removeById: "rootNodes (removeById i d) = removeFirst i (rootNodes d)"
proof (cases d)
  case None
  then show ?thesis by (simp add: removeById_def rootNodes_def)
next
  case (Some n)
  then show ?thesis by (cases n) (simp_all add: removeById_def rootNodes_def)
qed

lemma guideCount_removeById: "guideCount d \<le> 1 \<Longrightarrow> guideCount (removeById guideId d) = 0"
  by (simp add: guideCount_def rootNodes_removeById countId_removeFirst)

lemma styleNode_newGuideLine: "\<not> focusEnabled s \<Longrightarrow> styleNode s newGuideLine = newGuideLine"
  by (simp add: newGuideLine_def styleNode_Element noStyle_def)

lemma countId_newGuideLine: "countId guideId [newGuideLine] = 1"
  by (simp add: newGuideLine_def)

lemma applyGuide_cases:
  "applyGuide s d =
     (if guideEnabled s then
        (if guideCount d = 0 then onBody (appendChild newGuideLine) d else Inr d)
      else if guideCount d = 0 then Inr d else Inr (removeById guideId d))"
  by (simp add: applyGuide_def Let_def getElementById_None_iff)

text \<open>creating the guide line in a styled document\<close>

lemma styled_create:
  assumes "styled s d"
  obtains d2 where "onBody (appendChild newGuideLine) d = Inr d2"
    "guideCount d2 = guideCount d + 1"
    "documentElement d2 \<noteq> None"
    "\<not> focusEnabled s \<Longrightarrow> styled s d2"
    "map_option style (documentElement d2) = map_option style (documentElement d)"
proof -
  let ?U = "updateFirst isBodyTag (withStyle (cursorStyle s))"
  let ?A = "updateFirst isBodyTag (appendChild newGuideLine)"
  from assms obtain e h st cs where d: "d = Some (Element ''html'' e h st cs)"
    and r: "rootStyle s st = st" and m: "map (styleNode s) cs = cs" and u: "?U cs = Some cs"
    unfolding styled_iff by blast
  from u have "firstChild isBodyTag cs \<noteq> None"
    using updateFirst_None_iff [of isBodyTag "withStyle (cursorStyle s)" cs] by simp
  then obtain cs2 where a: "?A cs = Some cs2"
    using updateFirst_None_iff [of isBodyTag "appendChild newGuideLine" cs] by auto
  let ?d2 = "Some (Element ''html'' e h st cs2)"
  have 1: "onBody (appendChild newGuideLine) d = Inr ?d2"
    by (simp add: d onBody_def a)
  have 2: "guideCount ?d2 = guideCount d + 1"
    using countId_updateFirst_appendChild [OF a, of guideId]
    by (simp add: d guideCount_def rootNodes_def countId_newGuideLine)
  have 3: "styled s ?d2" if nf: "\<not> focusEnabled s"
  proof -
    have "?A (map (styleNode s) cs) = map_option (map (styleNode s)) (?A cs)"
      using updateFirst_appendChild_styleNode [of isBodyTag s newGuideLine cs]
      by (simp add: styleNode_newGuideLine [OF nf])
    then have m2: "map (styleNode s) cs2 = cs2"
      using a m by simp
    have "?U cs2 = ?A cs"
      using u a by (rule updateFirst_two [rotated 3]) (simp_all add: withStyle_appendChild)
    then show ?thesis
      unfolding styled_iff using r m2 a by simp
  qed
  show ?thesis
    using that [of ?d2] 1 2 3 by (simp add: d documentElement_def)
qed

text \<open>removing the guide line from a styled document\<close>

lemma styled_remove:
  assumes "styled s d" "guideCount d \<noteq> 0"
    and "map_option elemId (documentElement d) \<noteq> Some guideId"
    and "map_option elemId (body d) \<noteq> Some guideId"
  shows "styled s (removeById guideId d)"
    and "map_option style (documentElement (removeById guideId d)) = map_option style (documentElement d)"
proof -
  let ?U = "updateFirst isBodyTag (withStyle (cursorStyle s))"
  from assms(1) obtain e h st cs where d: "d = Some (Element ''html'' e h st cs)"
    and r: "rootStyle s st = st" and m: "map (styleNode s) cs = cs" and u: "?U cs = Some cs"
    unfolding styled_iff by blast
  have e: "e \<noteq> guideId"
    using assms(3) by (simp add: d documentElement_def)
  have b: "map_option elemId (firstChild isBodyTag cs) \<noteq> Some guideId"
    using assms(4) by (simp add: d body_def)
  have f: "findById guideId cs \<noteq> None"
    using assms(2) e by (simp add: d guideCount_def rootNodes_def findById_None_iff)
  have rm: "removeById guideId d = Some (Element ''html'' e h st (removeFirst guideId cs))"
    using e f by (simp add: d removeById_def rootNodes_def)
  have "map (styleNode s) (removeFirst guideId cs) = removeFirst guideId cs"
    using removeFirst_styleNode [of guideId s cs] m by simp
  moreover have "?U (removeFirst guideId cs) = Some (removeFirst guideId cs)"
    using updateFirst_removeFirst [OF b, of "cursorStyle s"] u by simp
  ultimately show "styled s (removeById guideId d)"
    unfolding rm styled_iff using r by simp
  have "documentElement (removeById guideId d)
        = Some (Element ''html'' e h st (removeFirst guideId cs))"
    unfolding rm by (simp add: documentElement_def)
  then show "map_option style (documentElement (removeById guideId d))
             = map_option style (documentElement d)"
    by (simp add: d documentElement_def)
qed

lemma no_guide_ids:
  assumes "guideCount d = 0"
  shows "map_option elemId (documentElement d) \<noteq> Some guideId"
    and "map_option elemId (body d) \<noteq> Some guideId"
proof -
  have fc: "firstChild p ns = Some n \<Longrightarrow> elemId n = i \<Longrightarrow> countId i ns \<noteq> 0" for p ns n i
    by (induction p ns rule: firstChild.induct) (auto split: if_splits)
  show "map_option elemId (documentElement d) \<noteq> Some guideId"
  proof (cases d)
    case None
    then show ?thesis by (simp add: documentElement_def)
  next
    case (Some n)
    then show ?thesis
      using assms by (cases n) (auto simp: documentElement_def guideCount_def rootNodes_def)
  qed
  show "map_option elemId (body d) \<noteq> Some guideId"
  proof (cases d)
    case None
    then show ?thesis by (simp add: body_def)
  next
    case (Some n)
    show ?thesis
    proof (cases n)
      case (Text x)
      then show ?thesis using Some by (simp add: body_def)
    next
      case (Element t e h st cs)
      then show ?thesis
        using assms Some fc [of isBodyTag cs _ guideId]
        by (auto simp: body_def guideCount_def rootNodes_def)
    qed
  qed
qed

lemma guideCount_applySettings:
  assumes "applySettings s d = Inr d2" "guideCount d \<le> 1"
  shows "guideCount d2 = (if guideEnabled s then 1 else 0)"
proof -
  from assms(1) obtain d1 where st: "applyStyles s d = Inr d1" and g: "applyGuide s d1 = Inr d2"
    by (auto simp: applySettings_def andThen_def split: sum.splits)
  have c: "guideCount d1 = guideCount d"
    by (rule guideCount_applyStyles [OF st])
  have sd: "styled s d1"
    by (rule applyStyles_styled [OF st])
  show ?thesis
  proof (cases "guideEnabled s \<and> guideCount d = 0")
    case True
    obtain d3 where "onBody (appendChild newGuideLine) d1 = Inr d3" "guideCount d3 = guideCount d1 + 1"
      using styled_create [OF sd] by blast
    then show ?thesis
      using True g c by (simp add: applyGuide_cases)
  next
    case False
    then show ?thesis
      using g c assms(2) guideCount_removeById [of d1]
      by (auto simp: applyGuide_cases split: if_splits)
  qed
qed

lemma applySettings_total:
  assumes "body d \<noteq> None"
  shows "\<exists>d2. applySettings s d = Inr d2"
proof -
  obtain d1 where st: "applyStyles s d = Inr d1"
    using applyStyles_total [OF assms] by blast
  obtain d3 where "onBody (appendChild newGuideLine) d1 = Inr d3"
    using styled_create [OF applyStyles_styled [OF st]] by blast
  then show ?thesis
    by (simp add: applySettings_def andThen_def st applyGuide_cases)
qed

lemma applySettings_again:
  assumes ok: "applySettings s d = Inr d2" and le: "guideCount d \<le> 1"
    and nc: "\<not> (focusEnabled s \<and> guideEnabled s \<and> guideCount d = 0)"
    and ids: "guideEnabled s \<or>
      (map_option elemId (documentElement d) \<noteq> Some guideId
       \<and> map_option elemId (body d) \<noteq> Some guideId)"
  shows "applySettings s d2 = Inr d2"
proof -
  from ok obtain d1 where st: "applyStyles s d = Inr d1" and g: "applyGuide s d1 = Inr d2"
    by (auto simp: applySettings_def andThen_def split: sum.splits)
  have c: "guideCount d1 = guideCount d"
    by (rule guideCount_applyStyles [OF st])
  have sd: "styled s d1"
    by (rule applyStyles_styled [OF st])
  have c2: "guideCount d2 = (if guideEnabled s then 1 else 0)"
    by (rule guideCount_applySettings [OF ok le])
  have "styled s d2"
  proof (cases "guideEnabled s")
    case True
    show ?thesis
    proof (cases "guideCount d = 0")
      case True
      with \<open>guideEnabled s\<close> nc have nf: "\<not> focusEnabled s"
        by simp
      obtain d3 where "onBody (appendChild newGuideLine) d1 = Inr d3" "styled s d3"
        using styled_create [OF sd] nf by blast
      then show ?thesis
        using True \<open>guideEnabled s\<close> g c by (simp add: applyGuide_cases)
    next
      case False
      then show ?thesis
        using True g c sd by (simp add: applyGuide_cases)
    qed
  next
    case False
    show ?thesis
    proof (cases "guideCount d = 0")
      case True
      then show ?thesis
        using False g c sd by (simp add: applyGuide_cases)
    next
      case nz: False
      have "styled s (removeById guideId d1)"
        using sd nz c ids False ids_applyStyles [OF st]
        by (intro styled_remove) simp_all
      then show ?thesis
        using False nz g c by (simp add: applyGuide_cases)
    qed
  qed
  then have "applyStyles s d2 = Inr d2"
    by (rule styled_applyStyles)
  then show ?thesis
    using c2 by (simp add: applySettings_def andThen_def applyGuide_cases)
qed

lemma styled_body:
  assumes "styled s d"
  shows "body d \<noteq> None"
proof -
  from assms obtain e h st cs where d: "d = Some (Element ''html'' e h st cs)"
    and u: "updateFirst isBodyTag (withStyle (cursorStyle s)) cs = Some cs"
    unfolding styled_iff by blast
  from u have "firstChild isBodyTag cs \<noteq> None"
    using updateFirst_None_iff [of isBodyTag "withStyle (cursorStyle s)" cs] by simp
  then show ?thesis
    by (simp add: d body_def)
qed

lemma onBody_body:
  assumes "onBody (appendChild m) d = Inr d2"
  shows "body d2 \<noteq> None"
proof -
  from assms obtain e h st cs cs2 where d: "d = Some (Element ''html'' e h st cs)"
    and a: "updateFirst isBodyTag (appendChild m) cs = Some cs2"
    and d2: "d2 = Some (Element ''html'' e h st cs2)"
    by (auto simp: onBody_def split: option.splits node.splits if_splits)
  have "map_option elemId (firstChild isBodyTag cs2) = map_option elemId (firstChild isBodyTag cs)"
    using a by (rule firstChild_updateFirst [rotated]) simp
  moreover have "firstChild isBodyTag cs \<noteq> None"
    using a updateFirst_None_iff [of isBodyTag "appendChild m" cs] by simp
  ultimately show ?thesis
    by (auto simp: d2 body_def)
qed

lemma applySettings_body:
  assumes "applySettings s d = Inr d1" "guideEnabled s"
  shows "body d1 \<noteq> None"
proof -
  from assms(1) obtain d0 where st: "applyStyles s d = Inr d0" and g: "applyGuide s d0 = Inr d1"
    by (auto simp: applySettings_def andThen_def split: sum.splits)
  show ?thesis
    using g assms(2) styled_body [OF applyStyles_styled [OF st]] onBody_body [of newGuideLine d0 d1]
    by (auto simp: applyGuide_cases split: if_splits)
qed

subsection \<open>Idempotence\<close>

text \<open>
  C5, as the code has it. In a document where at most one element has the id of the guide
  line, the effect returns when the document has a body, and when it has returned:
  applying the same settings a second time changes nothing, unless the first application
  has created the guide line while \<open>focusEnabled\<close> is true, or the guide is disabled and it
  is the root or the body that has the id of the guide line (line 115 removes the element
  that has the id, whatever it is); a third application never changes what the second has
  left; after enabling the guide there is exactly one guide line, once as well as twice,
  and disabling it then leaves none; whatever is applied next, the document has one guide
  line when the guide is enabled and none when it is not.
\<close>

theorem applySettings_idempotent:
  "guideCount d \<le> 1 \<Longrightarrow>
     (body d \<noteq> None \<longrightarrow> (\<exists>d1. applySettings s d = Inr d1))
     \<and> (\<forall>d1. applySettings s d = Inr d1 \<longrightarrow>
          (\<not> (focusEnabled s \<and> guideEnabled s \<and> guideCount d = 0)
            \<and> (guideEnabled s
                \<or> (map_option elemId (documentElement d) \<noteq> Some guideId
                    \<and> map_option elemId (body d) \<noteq> Some guideId))
            \<longrightarrow> applySettings s d1 = Inr d1)
          \<and> (\<forall>d2. applySettings s d1 = Inr d2 \<longrightarrow> applySettings s d2 = Inr d2)
          \<and> (guideEnabled s \<longrightarrow>
                guideCount d1 = 1
                \<and> (\<exists>d2. applySettings s d1 = Inr d2 \<and> guideCount d2 = 1)
                \<and> (\<not> guideEnabled s' \<longrightarrow>
                      (\<exists>d2. applySettings s' d1 = Inr d2 \<and> guideCount d2 = 0)))
          \<and> (\<not> guideEnabled s \<longrightarrow> guideCount d1 = 0)
          \<and> (\<forall>d2. applySettings s' d1 = Inr d2 \<longrightarrow>
                guideCount d2 = (if guideEnabled s' then 1 else 0)))"
proof -
  assume le: "guideCount d \<le> 1"
  have main: "(\<not> (focusEnabled s \<and> guideEnabled s \<and> guideCount d = 0)
            \<and> (guideEnabled s
                \<or> (map_option elemId (documentElement d) \<noteq> Some guideId
                    \<and> map_option elemId (body d) \<noteq> Some guideId))
            \<longrightarrow> applySettings s d1 = Inr d1)
          \<and> (\<forall>d2. applySettings s d1 = Inr d2 \<longrightarrow> applySettings s d2 = Inr d2)
          \<and> (guideEnabled s \<longrightarrow>
                guideCount d1 = 1
                \<and> (\<exists>d2. applySettings s d1 = Inr d2 \<and> guideCount d2 = 1)
                \<and> (\<not> guideEnabled s' \<longrightarrow>
                      (\<exists>d2. applySettings s' d1 = Inr d2 \<and> guideCount d2 = 0)))
          \<and> (\<not> guideEnabled s \<longrightarrow> guideCount d1 = 0)
          \<and> (\<forall>d2. applySettings s' d1 = Inr d2 \<longrightarrow>
                guideCount d2 = (if guideEnabled s' then 1 else 0))"
    if ok: "applySettings s d = Inr d1" for d1
  proof -
    have c1: "guideCount d1 = (if guideEnabled s then 1 else 0)"
      by (rule guideCount_applySettings [OF ok le])
    then have le1: "guideCount d1 \<le> 1"
      by simp
    have once: "applySettings s d1 = Inr d1"
      if "\<not> (focusEnabled s \<and> guideEnabled s \<and> guideCount d = 0)"
        "guideEnabled s \<or> (map_option elemId (documentElement d) \<noteq> Some guideId
                    \<and> map_option elemId (body d) \<noteq> Some guideId)"
      using that by (intro applySettings_again [OF ok le]) simp_all
    have third: "applySettings s d2 = Inr d2" if "applySettings s d1 = Inr d2" for d2
    proof (rule applySettings_again [OF that le1])
      show "\<not> (focusEnabled s \<and> guideEnabled s \<and> guideCount d1 = 0)"
        using c1 by simp
      show "guideEnabled s \<or> (map_option elemId (documentElement d1) \<noteq> Some guideId
                    \<and> map_option elemId (body d1) \<noteq> Some guideId)"
        using c1 no_guide_ids [of d1] by (cases "guideEnabled s") simp_all
    qed
    have enabled: "guideCount d1 = 1
                \<and> (\<exists>d2. applySettings s d1 = Inr d2 \<and> guideCount d2 = 1)
                \<and> (\<not> guideEnabled s' \<longrightarrow>
                      (\<exists>d2. applySettings s' d1 = Inr d2 \<and> guideCount d2 = 0))"
      if en: "guideEnabled s"
    proof -
      have b: "body d1 \<noteq> None"
        by (rule applySettings_body [OF ok en])
      obtain d2 where d2: "applySettings s d1 = Inr d2"
        using applySettings_total [OF b] by blast
      obtain d3 where d3: "applySettings s' d1 = Inr d3"
        using applySettings_total [OF b] by blast
      show ?thesis
        using c1 en d2 d3 guideCount_applySettings [OF d2 le1] guideCount_applySettings [OF d3 le1]
        by auto
    qed
    have next_one: "guideCount d2 = (if guideEnabled s' then 1 else 0)"
      if "applySettings s' d1 = Inr d2" for d2
      by (rule guideCount_applySettings [OF that le1])
    have off: "\<not> guideEnabled s \<longrightarrow> guideCount d1 = 0"
      using c1 by simp
    show ?thesis
      using once third enabled off next_one by (intro conjI impI allI) blast+
  qed
  show ?thesis
    using main applySettings_total [of d s] by blast
qed

lemma guideCount_blank: "guideCount blankDocument = 0"
  by (simp add: guideCount_def blankDocument_def rootNodes_def guideId_def)

lemma body_blank: "body blankDocument \<noteq> None"
  by (simp add: body_def blankDocument_def isBodyTag_def)

theorem applySettings_idempotent_witness:
  "guideCount blankDocument \<le> 1 \<and> body blankDocument \<noteq> None
   \<and> (\<exists>d1. applySettings (defaultSettings\<lparr>guideEnabled := True\<rparr>) blankDocument = Inr d1
         \<and> applySettings (defaultSettings\<lparr>guideEnabled := True\<rparr>) d1 = Inr d1
         \<and> guideCount d1 = 1
         \<and> (\<exists>d2. applySettings defaultSettings d1 = Inr d2 \<and> guideCount d2 = 0))"
proof -
  let ?s = "defaultSettings\<lparr>guideEnabled := True\<rparr>"
  have c: "guideCount blankDocument \<le> 1"
    by (simp add: guideCount_blank)
  note inst = applySettings_idempotent [OF c, of ?s defaultSettings]
  have a: "\<not> (focusEnabled ?s \<and> guideEnabled ?s \<and> guideCount blankDocument = 0)"
    by (simp add: defaultSettings_def)
  have g: "guideEnabled ?s" "\<not> guideEnabled defaultSettings"
    by (simp_all add: defaultSettings_def)
  from inst body_blank obtain d1 where d1: "applySettings ?s blankDocument = Inr d1"
    by blast
  from inst d1 a g have "applySettings ?s d1 = Inr d1"
    by blast
  moreover from inst d1 g have "guideCount d1 = 1"
    by blast
  moreover from inst d1 g have "\<exists>d2. applySettings defaultSettings d1 = Inr d2 \<and> guideCount d2 = 0"
    by blast
  ultimately show ?thesis
    using c body_blank d1 by blast
qed

lemmas effect_defs =
  applySettings_def andThen_def applyStyles_Element applyStyles_None applyGuide_def
  getElementById_def removeById_def rootNodes_def onBody_def Let_def isBodyTag_def
  styleNode_Element styleNode_Text rootStyle_def cursorStyle_def guideId_def newGuideLine_def
  querySelectorAll_def noStyle_def defaultSettings_def

lemma blank_once:
  "applySettings (defaultSettings\<lparr>focusEnabled := True, guideEnabled := True\<rparr>) blankDocument
   = Inr (Some (Element ''html'' [] None
       (noStyle\<lparr>fontSize := ''1em'', filterCss := filterValue defaultSettings,
                letterSpacing := ''normal'', fontFamily := ''sans-serif'',
                outline := ''2px solid #0000FF''\<rparr>)
       [Element ''head'' [] None (noStyle\<lparr>outline := ''2px solid #0000FF''\<rparr>) [],
        Element ''body'' [] None (noStyle\<lparr>outline := ''2px solid #0000FF''\<rparr>)
          [newGuideLine]]))"
  by (simp add: effect_defs blankDocument_def filterValue_def filterStr_def)

lemma blank_twice:
  "andThen (applySettings (defaultSettings\<lparr>focusEnabled := True, guideEnabled := True\<rparr>) blankDocument)
     (applySettings (defaultSettings\<lparr>focusEnabled := True, guideEnabled := True\<rparr>))
   = Inr (Some (Element ''html'' [] None
       (noStyle\<lparr>fontSize := ''1em'', filterCss := filterValue defaultSettings,
                letterSpacing := ''normal'', fontFamily := ''sans-serif'',
                outline := ''2px solid #0000FF''\<rparr>)
       [Element ''head'' [] None (noStyle\<lparr>outline := ''2px solid #0000FF''\<rparr>) [],
        Element ''body'' [] None (noStyle\<lparr>outline := ''2px solid #0000FF''\<rparr>)
          [withStyle (\<lambda>st. st\<lparr>outline := ''2px solid #0000FF''\<rparr>) newGuideLine]]))"
  unfolding blank_once
  by (simp add: effect_defs filterValue_def filterStr_def)

lemma guideBody_once:
  "applySettings defaultSettings guideBodyPage
   = Inr (Some (Element ''html'' [] None
       (noStyle\<lparr>fontSize := ''1em'', filterCss := filterValue defaultSettings,
                letterSpacing := ''normal'', fontFamily := ''sans-serif''\<rparr>)
       [Element ''head'' [] None noStyle []]))"
  by (simp add: effect_defs guideBodyPage_def filterValue_def filterStr_def)

text \<open>
  C5 as stated fails in two ways. With \<open>focusEnabled\<close> and \<open>guideEnabled\<close> true, the first
  application creates the guide line after the loop that sets the outlines (lines 82-85),
  so the guide line has no outline; the second application finds it among all elements
  and gives it the outline. And on a page whose body has the id of the guide line (one
  element has that id) with the guide disabled, the first application removes the body
  (lines 114-115), and the second is a \<^verbatim>\<open>TypeError\<close> at line 88, where \<^verbatim>\<open>document.body\<close> is
  \<^verbatim>\<open>null\<close>.
\<close>

theorem applySettings_twice_counterexample:
  "map_sum id (\<lambda>d. map (\<lambda>n. (elemId n, outline (style n))) (querySelectorAll (\<lambda>t. t = ''div'') d))
     (applySettings (defaultSettings\<lparr>focusEnabled := True, guideEnabled := True\<rparr>) blankDocument)
     = Inr [(''reading-guide-line'', [])]
   \<and> map_sum id (\<lambda>d. map (\<lambda>n. (elemId n, outline (style n))) (querySelectorAll (\<lambda>t. t = ''div'') d))
     (andThen
        (applySettings (defaultSettings\<lparr>focusEnabled := True, guideEnabled := True\<rparr>) blankDocument)
        (applySettings (defaultSettings\<lparr>focusEnabled := True, guideEnabled := True\<rparr>)))
     = Inr [(''reading-guide-line'', ''2px solid #0000FF'')]
   \<and> andThen
        (applySettings (defaultSettings\<lparr>focusEnabled := True, guideEnabled := True\<rparr>) blankDocument)
        (applySettings (defaultSettings\<lparr>focusEnabled := True, guideEnabled := True\<rparr>))
      \<noteq> applySettings (defaultSettings\<lparr>focusEnabled := True, guideEnabled := True\<rparr>) blankDocument
   \<and> guideCount guideBodyPage = 1
   \<and> andThen (applySettings defaultSettings guideBodyPage) (applySettings defaultSettings)
      = Inl TypeError"
  unfolding blank_twice blank_once guideBody_once
  by (simp add: effect_defs guideBodyPage_def guideCount_def)

subsection \<open>The filter\<close>

lemma trim_contrast: "trim '' contrast(2)'' = ''contrast(2)''"
  by (simp add: trim_def isSpace_def)

lemma trim_invert: "trim '' invert(1)'' = ''invert(1)''"
  by (simp add: trim_def isSpace_def)

lemma trim_both: "trim '' contrast(2) invert(1)'' = ''contrast(2) invert(1)''"
  by (simp add: trim_def isSpace_def)

lemma trim_empty: "trim [] = []"
  by (simp add: trim_def)

lemma filterValue_eq:
  "filterValue s =
     (if highContrast s then (if colorShift s then ''contrast(2) invert(1)'' else ''contrast(2)'')
      else if colorShift s then ''invert(1)'' else ''none'')"
  by (simp add: filterValue_def filterStr_def trim_contrast trim_invert trim_both trim_empty)

lemma contains_terms:
  "contains ''contrast(2)'' ''contrast(2)''" "\<not> contains ''invert(1)'' ''contrast(2)''"
  "contains ''contrast(2)'' ''contrast(2) invert(1)''" "contains ''invert(1)'' ''contrast(2) invert(1)''"
  "contains ''invert(1)'' ''invert(1)''" "\<not> contains ''contrast(2)'' ''invert(1)''"
  by simp_all

lemma filter_applyStyles:
  "applyStyles s d = Inr d1 \<Longrightarrow>
   map_option (\<lambda>r. filterCss (style r)) (documentElement d1) = Some (filterValue s)"
  by (erule applyStyles_Inr) (simp add: documentElement_def rootStyle_def)

lemma documentElement_removeById_Element:
  "documentElement (removeById i (Some (Element t e h st cs)))
   = (if e = i then None
      else Some (Element t e h st (if findById i cs \<noteq> None then removeFirst i cs else cs)))"
  by (simp add: removeById_def rootNodes_def documentElement_def)

lemma documentElement_removeById:
  assumes "documentElement d = Some r"
  shows "if elemId r = i then documentElement (removeById i d) = None
         else map_option style (documentElement (removeById i d)) = Some (style r)"
proof -
  from assms obtain t e h st cs where "d = Some (Element t e h st cs)" "r = Element t e h st cs"
    by (auto simp: documentElement_def split: option.splits node.splits)
  then show ?thesis
    by (simp only: documentElement_removeById_Element) simp
qed

lemma filter_applySettings:
  assumes "applySettings s d = Inr d2"
  shows "case documentElement d2 of
           None \<Rightarrow> \<not> guideEnabled s \<and> map_option elemId (documentElement d) = Some guideId
         | Some r \<Rightarrow> filterCss (style r) = filterValue s"
proof -
  from assms obtain d1 where st: "applyStyles s d = Inr d1" and g: "applyGuide s d1 = Inr d2"
    by (auto simp: applySettings_def andThen_def split: sum.splits)
  have sd: "styled s d1"
    by (rule applyStyles_styled [OF st])
  from filter_applyStyles [OF st] obtain r where r: "documentElement d1 = Some r"
    and f: "filterCss (style r) = filterValue s"
    by auto
  have ids: "map_option elemId (documentElement d) = Some (elemId r)"
    using ids_applyStyles(1) [OF st] r by simp
  have "d1 = d2 \<or> onBody (appendChild newGuideLine) d1 = Inr d2
        \<or> (\<not> guideEnabled s \<and> removeById guideId d1 = d2)"
    using g unfolding applyGuide_cases
    by (cases "guideEnabled s"; cases "guideCount d1 = 0") simp_all
  then consider (same) "d2 = d1"
    | (create) "onBody (appendChild newGuideLine) d1 = Inr d2"
    | (remove) "\<not> guideEnabled s" "d2 = removeById guideId d1"
    by blast
  then show ?thesis
  proof cases
    case same
    then show ?thesis using r f by simp
  next
    case create
    obtain d3 where "onBody (appendChild newGuideLine) d1 = Inr d3"
      "map_option style (documentElement d3) = map_option style (documentElement d1)"
      using styled_create [OF sd] by blast
    then show ?thesis
      using create r f by (auto split: option.splits)
  next
    case remove
    then show ?thesis
      using documentElement_removeById [OF r, of guideId] f ids
      by (auto split: option.splits if_splits)
  qed
qed

text \<open>
  C6. The value assigned to the \<^verbatim>\<open>filter\<close> of the root (line 69) is \<open>filterValue\<close>, which
  reads only \<open>highContrast\<close> and \<open>colorShift\<close>: the contrast term alone, both terms, the
  invert term alone, or \<^verbatim>\<open>none\<close>. The effect returns when the document has a body; the
  root has the value after the assignments, and still after the whole effect, unless the
  root itself had the id of the guide line and has been removed.
\<close>

theorem filter_value:
  "(body d \<noteq> None \<longrightarrow> (\<exists>d1. applySettings s d = Inr d1))
   \<and> (\<forall>d1. applyStyles s d = Inr d1 \<longrightarrow>
         map_option (\<lambda>r. filterCss (style r)) (documentElement d1) = Some (filterValue s))
   \<and> (\<forall>d1. applySettings s d = Inr d1 \<longrightarrow>
         (case documentElement d1 of
            None \<Rightarrow> \<not> guideEnabled s \<and> map_option elemId (documentElement d) = Some guideId
          | Some r \<Rightarrow> filterCss (style r) = filterValue s))
   \<and> (highContrast s \<and> \<not> colorShift s \<longrightarrow>
        contains ''contrast(2)'' (filterValue s) \<and> \<not> contains ''invert(1)'' (filterValue s))
   \<and> (highContrast s \<and> colorShift s \<longrightarrow>
        contains ''contrast(2)'' (filterValue s) \<and> contains ''invert(1)'' (filterValue s))
   \<and> (\<not> highContrast s \<and> colorShift s \<longrightarrow>
        contains ''invert(1)'' (filterValue s) \<and> \<not> contains ''contrast(2)'' (filterValue s))
   \<and> (\<not> highContrast s \<and> \<not> colorShift s \<longrightarrow> filterValue s = ''none'')
   \<and> (highContrast s = highContrast s' \<and> colorShift s = colorShift s' \<longrightarrow>
        filterValue s = filterValue s')"
proof -
  have "highContrast s = highContrast s' \<and> colorShift s = colorShift s' \<longrightarrow>
        filterValue s = filterValue s'"
    by (simp add: filterValue_eq)
  moreover have "(highContrast s \<and> \<not> colorShift s \<longrightarrow>
        contains ''contrast(2)'' (filterValue s) \<and> \<not> contains ''invert(1)'' (filterValue s))
   \<and> (highContrast s \<and> colorShift s \<longrightarrow>
        contains ''contrast(2)'' (filterValue s) \<and> contains ''invert(1)'' (filterValue s))
   \<and> (\<not> highContrast s \<and> colorShift s \<longrightarrow>
        contains ''invert(1)'' (filterValue s) \<and> \<not> contains ''contrast(2)'' (filterValue s))
   \<and> (\<not> highContrast s \<and> \<not> colorShift s \<longrightarrow> filterValue s = ''none'')"
    using contains_terms by (simp add: filterValue_eq)
  ultimately show ?thesis
    using applySettings_total [of d s] filter_applyStyles [of s d] filter_applySettings [of s d]
    by blast
qed

theorem filter_value_witness:
  "body blankDocument \<noteq> None
   \<and> (\<exists>d1 r. applySettings (defaultSettings\<lparr>highContrast := True\<rparr>) blankDocument = Inr d1
        \<and> documentElement d1 = Some r \<and> filterCss (style r) = ''contrast(2)'')
   \<and> contains ''contrast(2)'' (filterValue (defaultSettings\<lparr>highContrast := True\<rparr>))
   \<and> \<not> contains ''invert(1)'' (filterValue (defaultSettings\<lparr>highContrast := True\<rparr>))
   \<and> contains ''contrast(2)''
        (filterValue (defaultSettings\<lparr>highContrast := True, colorShift := True\<rparr>))
   \<and> contains ''invert(1)''
        (filterValue (defaultSettings\<lparr>highContrast := True, colorShift := True\<rparr>))
   \<and> contains ''invert(1)'' (filterValue (defaultSettings\<lparr>colorShift := True\<rparr>))
   \<and> \<not> contains ''contrast(2)'' (filterValue (defaultSettings\<lparr>colorShift := True\<rparr>))
   \<and> filterValue defaultSettings = ''none''"
proof -
  let ?a = "defaultSettings\<lparr>highContrast := True\<rparr>"
  let ?b = "defaultSettings\<lparr>highContrast := True, colorShift := True\<rparr>"
  let ?c = "defaultSettings\<lparr>colorShift := True\<rparr>"
  have a: "highContrast ?a \<and> \<not> colorShift ?a"
    and b: "highContrast ?b \<and> colorShift ?b"
    and c: "\<not> highContrast ?c \<and> colorShift ?c"
    and d: "\<not> highContrast defaultSettings \<and> \<not> colorShift defaultSettings"
    by (simp_all add: defaultSettings_def)
  note ia = filter_value [of blankDocument ?a ?a]
  have fa: "filterValue ?a = ''contrast(2)''"
    using a by (simp add: filterValue_eq)
  from ia body_blank obtain d1 where d1: "applySettings ?a blankDocument = Inr d1"
    by blast
  have "\<exists>r. documentElement d1 = Some r \<and> filterCss (style r) = ''contrast(2)''"
  proof (cases "documentElement d1")
    case None
    then have "map_option elemId (documentElement blankDocument) = Some guideId"
      using ia d1 by (auto split: option.splits)
    then show ?thesis
      by (simp add: blankDocument_def documentElement_def guideId_def)
  next
    case (Some r)
    then have "filterCss (style r) = filterValue ?a"
      using ia d1 by (auto split: option.splits)
    then show ?thesis
      using Some fa by simp
  qed
  then have first: "\<exists>d1 r. applySettings ?a blankDocument = Inr d1
        \<and> documentElement d1 = Some r \<and> filterCss (style r) = ''contrast(2)''"
    using d1 by blast
  have "contains ''contrast(2)'' (filterValue ?a) \<and> \<not> contains ''invert(1)'' (filterValue ?a)"
    using ia a by blast
  moreover have "contains ''contrast(2)'' (filterValue ?b) \<and> contains ''invert(1)'' (filterValue ?b)"
    using filter_value [of blankDocument ?b ?b] b by blast
  moreover have "contains ''invert(1)'' (filterValue ?c) \<and> \<not> contains ''contrast(2)'' (filterValue ?c)"
    using filter_value [of blankDocument ?c ?c] c by blast
  moreover have "filterValue defaultSettings = ''none''"
    using filter_value [of blankDocument defaultSettings defaultSettings] d by blast
  ultimately show ?thesis
    using first body_blank by blast
qed

subsection \<open>The images\<close>

lemma imgDisplays_nodes: "imgDisplays d = imgNodes (rootNodes d)"
  by (simp add: imgDisplays_def querySelectorAll_def imgNodes_def)

lemma imgNodes_simps:
  "imgNodes [] = []"
  "imgNodes (Text x # ns) = imgNodes ns"
  "imgNodes (Element t e h st cs # ns) =
     (if t = ''img'' then [display st] else []) @ imgNodes cs @ imgNodes ns"
  by (simp_all add: imgNodes_def)

lemma imgNodes_append: "imgNodes (xs @ ys) = imgNodes xs @ imgNodes ys"
  by (simp add: imgNodes_def selectAll_append)

lemma imgNodes_styleNode:
  "imgNodes (map (styleNode s) ns)
   = replicate (length (imgNodes ns)) (if imagesVisible s then ''block'' else ''none'')"
proof (induction "\<lambda>t. t = ''img''" ns rule: selectAll.induct)
  case 1
  then show ?case by (simp add: imgNodes_simps)
next
  case (2 x ns)
  then show ?case by (simp add: imgNodes_simps styleNode_Text)
next
  case (3 t e h st cs ns)
  then show ?case
    by (simp add: imgNodes_simps styleNode_Element replicate_add)
qed

lemma imgNodes_removeFirst: "set (imgNodes (removeFirst i ns)) \<subseteq> set (imgNodes ns)"
  by (induction i ns rule: removeFirst.induct) (auto simp: imgNodes_simps)

lemma imgNodes_updateFirst_withStyle:
  assumes "\<And>st. display (k st) = display st"
  shows "updateFirst p (withStyle k) ns = Some ns' \<Longrightarrow> imgNodes ns' = imgNodes ns"
  by (induction p "withStyle k" ns arbitrary: ns' rule: updateFirst.induct)
    (auto simp: imgNodes_simps assms split: if_splits)

lemma imgNodes_updateFirst_appendChild:
  assumes "imgNodes [m] = []"
  shows "updateFirst p (appendChild m) ns = Some ns' \<Longrightarrow> imgNodes ns' = imgNodes ns"
  using assms
  by (induction p "appendChild m" ns arbitrary: ns' rule: updateFirst.induct)
    (auto simp: imgNodes_simps imgNodes_append split: if_splits)

lemma imgDisplays_applyStyles:
  assumes "applyStyles s d = Inr d1"
  shows "imgDisplays d1
         = replicate (length (imgDisplays d)) (if imagesVisible s then ''block'' else ''none'')"
proof (rule applyStyles_Inr [OF assms])
  fix e h st cs cs'
  assume d: "d = Some (Element ''html'' e h st cs)"
    and u: "updateFirst isBodyTag (withStyle (cursorStyle s)) (map (styleNode s) cs) = Some cs'"
    and d1: "d1 = Some (Element ''html'' e h (rootStyle s st) cs')"
  have "imgNodes cs' = imgNodes (map (styleNode s) cs)"
    using u by (rule imgNodes_updateFirst_withStyle [rotated]) (simp add: cursorStyle_def)
  then show ?thesis
    by (simp add: d d1 imgDisplays_nodes rootNodes_def imgNodes_simps imgNodes_styleNode)
qed

lemma imgDisplays_onBody:
  assumes "onBody (appendChild newGuideLine) d = Inr d2"
  shows "imgDisplays d2 = imgDisplays d"
proof -
  from assms obtain e h st cs cs2 where d: "d = Some (Element ''html'' e h st cs)"
    and a: "updateFirst isBodyTag (appendChild newGuideLine) cs = Some cs2"
    and d2: "d2 = Some (Element ''html'' e h st cs2)"
    by (auto simp: onBody_def split: option.splits node.splits if_splits)
  have "imgNodes cs2 = imgNodes cs"
    using a by (rule imgNodes_updateFirst_appendChild [rotated])
      (simp add: newGuideLine_def imgNodes_simps)
  then show ?thesis
    by (simp add: d d2 imgDisplays_nodes rootNodes_def imgNodes_simps)
qed

lemma imgDisplays_applyGuide:
  assumes "applyGuide s d = Inr d2"
  shows "set (imgDisplays d2) \<subseteq> set (imgDisplays d)"
proof -
  have "d = d2 \<or> onBody (appendChild newGuideLine) d = Inr d2 \<or> removeById guideId d = d2"
    using assms unfolding applyGuide_cases
    by (cases "guideEnabled s"; cases "guideCount d = 0") simp_all
  then show ?thesis
    using imgDisplays_onBody [of d d2] imgNodes_removeFirst [of guideId "rootNodes d"]
    by (auto simp: imgDisplays_nodes rootNodes_removeById)
qed

lemma imgDisplays_applySettings:
  assumes "applySettings s d = Inr d2"
  shows "set (imgDisplays d2) \<subseteq> {if imagesVisible s then ''block'' else ''none''}"
proof -
  from assms obtain d1 where st: "applyStyles s d = Inr d1" and g: "applyGuide s d1 = Inr d2"
    by (auto simp: applySettings_def andThen_def split: sum.splits)
  show ?thesis
    using imgDisplays_applyGuide [OF g] by (auto simp: imgDisplays_applyStyles [OF st])
qed

lemma applySettings_body_fresh:
  assumes "applySettings s d = Inr d1" "guideCount d = 0"
  shows "body d1 \<noteq> None"
proof -
  from assms(1) obtain d0 where st: "applyStyles s d = Inr d0" and g: "applyGuide s d0 = Inr d1"
    by (auto simp: applySettings_def andThen_def split: sum.splits)
  have "guideCount d0 = 0"
    using guideCount_applyStyles [OF st] assms(2) by simp
  then show ?thesis
    using g styled_body [OF applyStyles_styled [OF st]] onBody_body [of newGuideLine d0 d1]
    by (auto simp: applyGuide_cases split: if_splits)
qed

text \<open>
  C10. The loop over the images (lines 91-94) gives each image the display \<^verbatim>\<open>block\<close> when
  \<open>imagesVisible\<close> is true (and \<^verbatim>\<open>none\<close> when it is false), whatever the display was; so
  after the whole effect every image has \<^verbatim>\<open>block\<close>, and hiding and then showing the images
  of a document in which some display was not \<^verbatim>\<open>block\<close> does not give the displays back.
  The effect returns when the document has a body, and both applications do when moreover
  the guide is enabled or no element has the id of the guide line.
\<close>

theorem images_shown_as_block:
  "(body d \<noteq> None \<longrightarrow> (\<exists>d1. applySettings s d = Inr d1))
   \<and> (\<forall>d1. applyStyles s d = Inr d1 \<longrightarrow>
         imgDisplays d1
           = replicate (length (imgDisplays d)) (if imagesVisible s then ''block'' else ''none''))
   \<and> (imagesVisible s \<longrightarrow>
         (\<forall>d1. applySettings s d = Inr d1 \<longrightarrow> (\<forall>x \<in> set (imgDisplays d1). x = ''block'')))
   \<and> ((\<exists>x \<in> set (imgDisplays d). x \<noteq> ''block'') \<longrightarrow>
         (\<forall>d1 d2. applySettings (s\<lparr>imagesVisible := False\<rparr>) d = Inr d1
                   \<and> applySettings (s\<lparr>imagesVisible := True\<rparr>) d1 = Inr d2
                 \<longrightarrow> imgDisplays d2 \<noteq> imgDisplays d))
   \<and> (body d \<noteq> None \<and> (guideEnabled s \<or> guideCount d = 0) \<longrightarrow>
         (\<exists>d1 d2. applySettings (s\<lparr>imagesVisible := False\<rparr>) d = Inr d1
                   \<and> applySettings (s\<lparr>imagesVisible := True\<rparr>) d1 = Inr d2))"
proof -
  have shown: "\<forall>x \<in> set (imgDisplays d2). x = ''block''"
    if "imagesVisible s'" "applySettings s' d' = Inr d2" for s' d' d2
    using that imgDisplays_applySettings [of s' d' d2] by auto
  have "imgDisplays d2 \<noteq> imgDisplays d"
    if "\<exists>x \<in> set (imgDisplays d). x \<noteq> ''block''"
      and "applySettings (s\<lparr>imagesVisible := True\<rparr>) d1 = Inr d2" for d1 d2
  proof -
    have "\<forall>x \<in> set (imgDisplays d2). x = ''block''"
      using that(2) by (rule shown [rotated]) simp
    then show ?thesis
      using that(1) by metis
  qed
  moreover have "\<exists>d1 d2. applySettings (s\<lparr>imagesVisible := False\<rparr>) d = Inr d1
                   \<and> applySettings (s\<lparr>imagesVisible := True\<rparr>) d1 = Inr d2"
    if b: "body d \<noteq> None" and g: "guideEnabled s \<or> guideCount d = 0"
  proof -
    obtain d1 where d1: "applySettings (s\<lparr>imagesVisible := False\<rparr>) d = Inr d1"
      using applySettings_total [OF b] by blast
    have "body d1 \<noteq> None"
      using g applySettings_body [OF d1] applySettings_body_fresh [OF d1] by auto
    then show ?thesis
      using d1 applySettings_total [of d1 "s\<lparr>imagesVisible := True\<rparr>"] by blast
  qed
  ultimately show ?thesis
    using shown [of s d] applySettings_total [of d s] imgDisplays_applyStyles [of s d]
    by blast
qed

lemma guideCount_samplePage: "guideCount samplePage = 0"
  by (simp add: guideCount_def rootNodes_def samplePage_def guideId_def)

lemma body_samplePage: "body samplePage \<noteq> None"
  by (simp add: body_def samplePage_def isBodyTag_def)

lemma imgDisplays_samplePage: "imgDisplays samplePage = [''inline'']"
  by (simp add: samplePage_def imgDisplays_nodes rootNodes_def imgNodes_simps)

theorem images_shown_as_block_witness:
  "imgDisplays samplePage = [''inline'']
   \<and> (\<exists>d1. applySettings defaultSettings samplePage = Inr d1
        \<and> (\<forall>x \<in> set (imgDisplays d1). x = ''block''))
   \<and> (\<exists>d1 d2. applySettings (defaultSettings\<lparr>imagesVisible := False\<rparr>) samplePage = Inr d1
        \<and> applySettings (defaultSettings\<lparr>imagesVisible := True\<rparr>) d1 = Inr d2
        \<and> imgDisplays d2 \<noteq> imgDisplays samplePage)"
proof -
  note inst = images_shown_as_block [of samplePage defaultSettings]
  note off = images_shown_as_block [of samplePage "defaultSettings\<lparr>imagesVisible := False\<rparr>"]
  have v: "imagesVisible defaultSettings"
    by (simp add: defaultSettings_def)
  have ex: "\<exists>x \<in> set (imgDisplays samplePage). x \<noteq> ''block''"
    by (simp add: imgDisplays_samplePage)
  from inst body_samplePage obtain d0 where d0: "applySettings defaultSettings samplePage = Inr d0"
    by blast
  with inst v have first: "\<forall>x \<in> set (imgDisplays d0). x = ''block''"
    by blast
  from off body_samplePage obtain d1
    where d1: "applySettings (defaultSettings\<lparr>imagesVisible := False\<rparr>) samplePage = Inr d1"
    by blast
  have b1: "body d1 \<noteq> None"
    using d1 guideCount_samplePage by (rule applySettings_body_fresh)
  then obtain d2 where d2: "applySettings (defaultSettings\<lparr>imagesVisible := True\<rparr>) d1 = Inr d2"
    using images_shown_as_block [of d1 "defaultSettings\<lparr>imagesVisible := True\<rparr>"] by blast
  have "imgDisplays d2 \<noteq> imgDisplays samplePage"
    using inst ex d1 d2 by (simp add: defaultSettings_def)
  then show ?thesis
    using imgDisplays_samplePage d0 first d1 d2 by blast
qed

subsection \<open>The page structure\<close>

text \<open>
  C8. \<open>renderPageStructure\<close> reads the document and changes nothing (it gives only what is
  rendered). Each of the three sections is there exactly when its list is not empty, and
  its entries are those of the list, one each; with two headings and no landmark, the
  heading section has two entries and there is no landmark section.
\<close>

theorem page_structure_sections:
  "((\<exists>es. (''Landmarks'', es) \<in> set (renderPageStructure d)) \<longleftrightarrow> landmarks d \<noteq> [])
   \<and> ((\<exists>es. (''Headings'', es) \<in> set (renderPageStructure d)) \<longleftrightarrow> headings d \<noteq> [])
   \<and> ((\<exists>es. (''Links'', es) \<in> set (renderPageStructure d)) \<longleftrightarrow> links d \<noteq> [])
   \<and> (\<forall>es. (''Landmarks'', es) \<in> set (renderPageStructure d) \<longrightarrow>
         es = map landmarkEntry (landmarks d))
   \<and> (\<forall>es. (''Headings'', es) \<in> set (renderPageStructure d) \<longrightarrow>
         es = map headingEntry (headings d))
   \<and> (\<forall>es. (''Links'', es) \<in> set (renderPageStructure d) \<longrightarrow>
         es = map linkEntry (links d))
   \<and> (length (headings d) = 2 \<and> landmarks d = [] \<longrightarrow>
         (\<exists>es. (''Headings'', es) \<in> set (renderPageStructure d) \<and> length es = 2)
         \<and> (\<forall>es. (''Landmarks'', es) \<notin> set (renderPageStructure d)))"
  by (auto simp: renderPageStructure_def)

theorem page_structure_sections_witness:
  "length (headings samplePage) = 2 \<and> landmarks samplePage = []
   \<and> renderPageStructure samplePage
       = [(''Headings'', [''h1: Mile 3 home'', ''h2: N/A'']), (''Links'', [''/''])]
   \<and> (\<exists>es. (''Headings'', es) \<in> set (renderPageStructure samplePage) \<and> length es = 2)
   \<and> (\<forall>es. (''Landmarks'', es) \<notin> set (renderPageStructure samplePage))"
proof -
  have h: "length (headings samplePage) = 2"
    by (simp add: headings_def querySelectorAll_def rootNodes_def samplePage_def)
  have l: "landmarks samplePage = []"
    by (simp add: landmarks_def querySelectorAll_def rootNodes_def samplePage_def)
  have r: "renderPageStructure samplePage
       = [(''Headings'', [''h1: Mile 3 home'', ''h2: N/A'']), (''Links'', [''/''])]"
    by (simp add: renderPageStructure_def l)
      (simp add: headings_def links_def querySelectorAll_def rootNodes_def samplePage_def
        headingEntry_def linkEntry_def orNA_def trim_def isSpace_def)
  from page_structure_sections [of samplePage] h l
  have "(\<exists>es. (''Headings'', es) \<in> set (renderPageStructure samplePage) \<and> length es = 2)
         \<and> (\<forall>es. (''Landmarks'', es) \<notin> set (renderPageStructure samplePage))"
    by blast
  with h l r show ?thesis
    by blast
qed

end
